theory Spec2Isabelle
  imports Complex_Main "HOL-Library.Log_Nat" "HOL-Library.Multiset"
begin

section \<open>The host document\<close>

text \<open>
  The plugin (\<^verbatim>\<open>src/code.ts\<close>) is glue over the plugin API of the design tool. The API
  is not part of the repository: the host is modelled here as an explicit state that every
  API call reads and updates, from the host-facing calls the specification lists and from
  what the API documents of them.
\<close>

subsection \<open>Numbers\<close>

text \<open>
  A JavaScript number is a double. It is modelled as the rational it stands for, and the
  result of an addition or subtraction is rounded to the nearest double: 53 significant
  bits, ties to the even significand. The range of the exponent is not modelled (no
  infinities, no subnormal numbers), nor are NaN and the sign of zero.

  \<open>exponent q\<close> is the \<open>e\<close> with \<open>2\<^sup>e \<le> q < 2\<^sup>e\<^sup>+\<^sup>1\<close>, for \<open>q > 0\<close>.
\<close>

definition exponent :: "rat \<Rightarrow> int" where
  "exponent q =
     (case quotient_of q of (a, b) \<Rightarrow>
        let d = bitlen a - bitlen b in if 2 powi d \<le> q then d else d - 1)"

definition round_even :: "rat \<Rightarrow> int" where
  "round_even m =
     (let f = \<lfloor>m\<rfloor>; r = m - of_int f
      in if r < 1 / 2 then f else if 1 / 2 < r then f + 1
         else if even f then f else f + 1)"

definition double :: "rat \<Rightarrow> rat" where
  "double q =
     (if q = 0 then 0
      else let u = 2 powi (exponent \<bar>q\<bar> - 52)
           in sgn q * of_int (round_even (\<bar>q\<bar> / u)) * u)"

text \<open>The operators \<^verbatim>\<open>+\<close> and \<^verbatim>\<open>-\<close> of JavaScript on numbers.\<close>

definition js_add :: "rat \<Rightarrow> rat \<Rightarrow> rat" where
  "js_add a b = double (a + b)"

definition js_sub :: "rat \<Rightarrow> rat \<Rightarrow> rat" where
  "js_sub a b = double (a - b)"

subsection \<open>Nodes and the host\<close>

datatype node_type = FRAME | TEXT | RECTANGLE

datatype paint =
    SOLID rat rat rat
  | GRADIENT_LINEAR "(rat \<times> rat \<times> rat \<times> rat \<times> rat) list" "rat list list"

text \<open>
  The properties of a scene node that the handlers read or write. \<open>xpos\<close> and \<open>ypos\<close>
  are the fields \<^verbatim>\<open>x\<close> and \<^verbatim>\<open>y\<close> of the API.
\<close>

record props =
  nid :: nat
  ntype :: node_type
  name :: string
  xpos :: rat
  ypos :: rat
  width :: rat
  height :: rat
  fills :: "paint list"
  characters :: string
  fontSize :: rat
  fontName :: "string \<times> string"

datatype node = Node (props: props) (children: "node list")

text \<open>A value thrown by a host call: an \<^verbatim>\<open>Error\<close> object with its message, or anything else.\<close>

datatype thrown = Error (message: string) | NonError

text \<open>
  The host. \<open>page\<close> is \<^verbatim>\<open>figma.currentPage.children\<close> (a forest), \<open>selection\<close> the ids of
  \<^verbatim>\<open>figma.currentPage.selection\<close>, \<open>center\<close> is \<^verbatim>\<open>figma.viewport.center\<close>, \<open>framed\<close> the
  nodes last passed to \<^verbatim>\<open>scrollAndZoomIntoView\<close>. \<open>notifications\<close>, \<open>opened\<close> and \<open>console\<close> collect
  what \<^verbatim>\<open>figma.notify\<close>, \<^verbatim>\<open>figma.openExternal\<close> and \<^verbatim>\<open>console.log\<close> were given; \<open>unhandled\<close>
  collects the rejections of promises that nobody awaits.

  Two fields describe how the host behaves and are never written: \<open>fault\<close> says which host
  call (counted by \<open>ticks\<close>) throws and what, and \<open>recenter\<close> is the viewport center the host
  picks when it frames a set of nodes.
\<close>

record host =
  page :: "node list"
  selection :: "nat list"
  center :: "rat \<times> rat"
  framed :: "nat list option"
  fonts :: "(string \<times> string) list"
  next_id :: nat
  notifications :: "string list"
  opened :: "string list"
  console :: "string list"
  unhandled :: "thrown list"
  ticks :: nat
  fault :: "nat \<Rightarrow> thrown option"
  recenter :: "node list \<Rightarrow> nat list \<Rightarrow> rat \<times> rat"

subsection \<open>Computations that may throw\<close>

type_synonym 'a figma = "host \<Rightarrow> (thrown + 'a) \<times> host"

definition return :: "'a \<Rightarrow> 'a figma" where
  "return a s = (Inr a, s)"

definition bind :: "'a figma \<Rightarrow> ('a \<Rightarrow> 'b figma) \<Rightarrow> 'b figma" where
  "bind m f s = (case m s of (Inl t, s1) \<Rightarrow> (Inl t, s1) | (Inr a, s1) \<Rightarrow> f a s1)"

text \<open>\<^verbatim>\<open>try { m } catch (error) { h error }\<close>\<close>

definition try_catch :: "'a figma \<Rightarrow> (thrown \<Rightarrow> 'a figma) \<Rightarrow> 'a figma" where
  "try_catch m h s = (case m s of (Inl t, s1) \<Rightarrow> h t s1 | (Inr a, s1) \<Rightarrow> (Inr a, s1))"

text \<open>
  Every host call counts one tick and throws when the host's \<open>fault\<close> says so, before
  it has had any effect.
\<close>

definition host_call :: "'a figma \<Rightarrow> 'a figma" where
  "host_call m s =
     (let s1 = s\<lparr>ticks := ticks s + 1\<rparr>
      in case fault s (ticks s) of Some t \<Rightarrow> (Inl t, s1) | None \<Rightarrow> m s1)"

text \<open>No host call among the next \<open>n\<close> throws.\<close>

definition quiet :: "host \<Rightarrow> nat \<Rightarrow> bool" where
  "quiet s n = (\<forall>i \<in> {0..<n}. fault s (ticks s + i) = None)"

subsection \<open>The forest of nodes\<close>

fun find_node :: "nat \<Rightarrow> node list \<Rightarrow> node option" where
  "find_node i [] = None"
| "find_node i (Node p ks # ns) =
     (if nid p = i then Some (Node p ks)
      else case find_node i ks of Some n \<Rightarrow> Some n | None \<Rightarrow> find_node i ns)"

fun update_node :: "nat \<Rightarrow> (props \<Rightarrow> props) \<Rightarrow> node list \<Rightarrow> node list" where
  "update_node i f [] = []"
| "update_node i f (Node p ks # ns) =
     Node (if nid p = i then f p else p) (update_node i f ks) # update_node i f ns"

fun remove_node :: "nat \<Rightarrow> node list \<Rightarrow> node list" where
  "remove_node i [] = []"
| "remove_node i (Node p ks # ns) =
     (if nid p = i then remove_node i ns
      else Node p (remove_node i ks) # remove_node i ns)"

fun add_child :: "nat \<Rightarrow> node \<Rightarrow> node list \<Rightarrow> node list" where
  "add_child i c [] = []"
| "add_child i c (Node p ks # ns) =
     (if nid p = i then Node p (ks @ [c]) # ns
      else Node p (add_child i c ks) # add_child i c ns)"

fun node_ids :: "node list \<Rightarrow> nat list" where
  "node_ids [] = []"
| "node_ids (Node p ks # ns) = nid p # node_ids ks @ node_ids ns"

text \<open>The parent of a node: the page itself, or another node.\<close>

datatype parent = PageNode | ParentNode nat

fun parent_in :: "parent \<Rightarrow> nat \<Rightarrow> node list \<Rightarrow> parent option" where
  "parent_in q i [] = None"
| "parent_in q i (Node p ks # ns) =
     (if nid p = i then Some q
      else case parent_in (ParentNode (nid p)) i ks of
             Some r \<Rightarrow> Some r
           | None \<Rightarrow> parent_in q i ns)"

text \<open>A copy of a forest in which every node gets a fresh id, counted up from \<open>n\<close>.\<close>

fun relabel :: "nat \<Rightarrow> node list \<Rightarrow> node list \<times> nat" where
  "relabel n [] = ([], n)"
| "relabel n (Node p ks # ns) =
     (case relabel (Suc n) ks of (ks', n1) \<Rightarrow>
        case relabel n1 ns of (ns', n2) \<Rightarrow>
          (Node (p\<lparr>nid := n\<rparr>) ks' # ns', n2))"

subsection \<open>The host calls the plugin makes\<close>

text \<open>
  Modelled from the spec: the host-facing calls, which are the plugin API and not code of
  the repository. Each definition below is one call, with the effect the API documents.
  A call on a node that is no longer in the document throws.
\<close>

definition missing :: thrown where
  "missing = Error ''The node does not exist''"

text \<open>
  Modelled from the spec: \<^verbatim>\<open>figma.notify(msg)\<close>, "show a non-blocking notification with a
  string".
\<close>

definition notify :: "string \<Rightarrow> unit figma" where
  "notify msg = host_call (\<lambda>s. (Inr (), s\<lparr>notifications := notifications s @ [msg]\<rparr>))"

text \<open>
  Modelled from the spec: \<^verbatim>\<open>figma.openExternal(url)\<close>, "open an external URL in the default
  browser".
\<close>

definition openExternal :: "string \<Rightarrow> unit figma" where
  "openExternal u = host_call (\<lambda>s. (Inr (), s\<lparr>opened := opened s @ [u]\<rparr>))"

text \<open>
  Modelled from the spec: \<^verbatim>\<open>figma.currentPage.selection\<close> read and written, "query/replace
  current selection". The API refuses to select a node that is not in the page.
\<close>

definition get_selection :: "nat list figma" where
  "get_selection = host_call (\<lambda>s. (Inr (selection s), s))"

definition set_selection :: "nat list \<Rightarrow> unit figma" where
  "set_selection ids = host_call (\<lambda>s.
     if \<forall>i \<in> set ids. find_node i (page s) \<noteq> None
     then (Inr (), s\<lparr>selection := ids\<rparr>)
     else (Inl missing, s))"

text \<open>
  Modelled from the spec: \<^verbatim>\<open>figma.viewport.center\<close>, "read viewport center coordinates", and
  \<^verbatim>\<open>figma.viewport.scrollAndZoomIntoView(nodes)\<close>, "scroll/zoom viewport to a node set".
\<close>

definition get_center :: "(rat \<times> rat) figma" where
  "get_center = host_call (\<lambda>s. (Inr (center s), s))"

definition scrollAndZoomIntoView :: "nat list \<Rightarrow> unit figma" where
  "scrollAndZoomIntoView ids = host_call (\<lambda>s.
     (Inr (), s\<lparr>framed := Some ids, center := recenter s (page s) ids\<rparr>))"

text \<open>
  Modelled from the spec: reading and writing a property of a node, as in \<^verbatim>\<open>node.x\<close>,
  \<^verbatim>\<open>node.name = v\<close> and \<^verbatim>\<open>node.fills = v\<close> ("set fills").
\<close>

definition get_prop :: "nat \<Rightarrow> (props \<Rightarrow> 'a) \<Rightarrow> 'a figma" where
  "get_prop i field = host_call (\<lambda>s.
     case find_node i (page s) of
       None \<Rightarrow> (Inl missing, s)
     | Some n \<Rightarrow> (Inr (field (props n)), s))"

definition set_prop :: "nat \<Rightarrow> (props \<Rightarrow> props) \<Rightarrow> unit figma" where
  "set_prop i f = host_call (\<lambda>s.
     case find_node i (page s) of
       None \<Rightarrow> (Inl missing, s)
     | Some n \<Rightarrow> (Inr (), s\<lparr>page := update_node i f (page s)\<rparr>))"

text \<open>
  Modelled from the spec: \<^verbatim>\<open>node.clone()\<close>, "clone a node". The result is a copy of the node
  and of everything below it, with fresh ids; the API parents it under the current page.
\<close>

definition clone :: "nat \<Rightarrow> nat figma" where
  "clone i = host_call (\<lambda>s.
     case find_node i (page s) of
       None \<Rightarrow> (Inl missing, s)
     | Some n \<Rightarrow>
         (case relabel (next_id s) [n] of (c, m) \<Rightarrow>
            (Inr (next_id s), s\<lparr>page := page s @ c, next_id := m\<rparr>)))"

text \<open>
  Modelled from the spec: \<^verbatim>\<open>figma.currentPage.appendChild(node)\<close>, "append a node to the
  current page". The node leaves the place it has and becomes the last child of the page.
\<close>

definition page_appendChild :: "nat \<Rightarrow> unit figma" where
  "page_appendChild i = host_call (\<lambda>s.
     case find_node i (page s) of
       None \<Rightarrow> (Inl missing, s)
     | Some n \<Rightarrow> (Inr (), s\<lparr>page := remove_node i (page s) @ [n]\<rparr>))"

text \<open>
  Modelled from the spec: \<^verbatim>\<open>parent.appendChild(child)\<close> on a node, as in "attach a text
  label inside". The child leaves the place it has and becomes the last child of the
  parent; the call throws when the parent is the child or lies below it.
\<close>

definition appendChild :: "nat \<Rightarrow> nat \<Rightarrow> unit figma" where
  "appendChild parent_id child_id = host_call (\<lambda>s.
     case find_node child_id (page s) of
       None \<Rightarrow> (Inl missing, s)
     | Some c \<Rightarrow>
         (let rest = remove_node child_id (page s)
          in if find_node parent_id rest = None
             then (Inl (Error ''Cannot move the node into itself''), s)
             else (Inr (), s\<lparr>page := add_child parent_id c rest\<rparr>)))"

text \<open>
  Modelled from the spec: \<^verbatim>\<open>figma.createFrame()\<close> and \<^verbatim>\<open>figma.createText()\<close>, "create a frame
  node" and "create a text node". The new node has the API's defaults and is parented under
  the current page.
\<close>

definition default_font :: "string \<times> string" where
  "default_font = (''Inter'', ''Regular'')"

definition new_frame :: "nat \<Rightarrow> props" where
  "new_frame i = \<lparr>nid = i, ntype = FRAME, name = ''Frame'', xpos = 0, ypos = 0,
     width = 100, height = 100, fills = [SOLID 1 1 1], characters = [],
     fontSize = 12, fontName = default_font\<rparr>"

definition new_text :: "nat \<Rightarrow> props" where
  "new_text i = \<lparr>nid = i, ntype = TEXT, name = [], xpos = 0, ypos = 0,
     width = 0, height = 0, fills = [SOLID 0 0 0], characters = [],
     fontSize = 12, fontName = default_font\<rparr>"

definition create_node :: "(nat \<Rightarrow> props) \<Rightarrow> nat figma" where
  "create_node mk = host_call (\<lambda>s.
     (Inr (next_id s),
      s\<lparr>page := page s @ [Node (mk (next_id s)) []], next_id := Suc (next_id s)\<rparr>))"

definition createFrame :: "nat figma" where
  "createFrame = create_node new_frame"

definition createText :: "nat figma" where
  "createText = create_node new_text"

text \<open>
  Modelled from the spec: \<^verbatim>\<open>node.resize(w, h)\<close>, by which the frame is sized. The API
  refuses a side below 0.01.
\<close>

definition resize :: "nat \<Rightarrow> rat \<Rightarrow> rat \<Rightarrow> unit figma" where
  "resize i w h = host_call (\<lambda>s.
     case find_node i (page s) of
       None \<Rightarrow> (Inl missing, s)
     | Some n \<Rightarrow>
         if w < 1 / 100 \<or> h < 1 / 100
         then (Inl (Error ''width and height must be at least 0.01''), s)
         else (Inr (), s\<lparr>page := update_node i (\<lambda>p. p\<lparr>width := w, height := h\<rparr>) (page s)\<rparr>))"

text \<open>
  Modelled from the spec: \<^verbatim>\<open>await figma.loadFontAsync(font)\<close>, "load a font by family+style
  (asynchronous, may fail)". The handler goes on when the font is there, and the \<^verbatim>\<open>await\<close>
  throws when the load is rejected. What the host does between the call and the
  resumption is not modelled: no other event is handled in between.
\<close>

definition loadFontAsync :: "string \<times> string \<Rightarrow> unit figma" where
  "loadFontAsync font = host_call (\<lambda>s.
     (Inr (), s\<lparr>fonts := (if font \<in> set (fonts s) then fonts s else fonts s @ [font])\<rparr>))"

text \<open>
  Modelled from the spec: \<^verbatim>\<open>text.characters = str\<close>, by which the label shows the title.
  The API throws when the font of the text node is not loaded. That the host renames and
  resizes a text node to fit its characters is not modelled.
\<close>

definition set_characters :: "nat \<Rightarrow> string \<Rightarrow> unit figma" where
  "set_characters i str = host_call (\<lambda>s.
     case find_node i (page s) of
       None \<Rightarrow> (Inl missing, s)
     | Some n \<Rightarrow>
         if fontName (props n) \<in> set (fonts s)
         then (Inr (), s\<lparr>page := update_node i (\<lambda>p. p\<lparr>characters := str\<rparr>) (page s)\<rparr>)
         else (Inl (Error ''Cannot write to node with unloaded font''), s))"

section \<open>The plugin\<close>

text \<open>The messages of the panel (\<^verbatim>\<open>PluginMessage\<close>). A \<^verbatim>\<open>user-message\<close> carries its text,
  a \<^verbatim>\<open>preview-action\<close> its action, url and title; at run time the action is a string.\<close>

datatype plugin_message =
    UserMessage string
  | PreviewActionMessage string string string

text \<open>\<^verbatim>\<open>error instanceof Error ? error.message : 'Unknown error'\<close>\<close>

definition errorMessage :: "thrown \<Rightarrow> string" where
  "errorMessage error = (case error of Error m \<Rightarrow> m | NonError \<Rightarrow> ''Unknown error'')"

text \<open>The check mark U+2713 that opens the success notifications, in UTF-8.\<close>

definition check_mark :: string where
  "check_mark = [CHR 0xE2, CHR 0x9C, CHR 0x93]"

subsection \<open>\<^verbatim>\<open>handleCopyLayer\<close>\<close>

text \<open>The body of the \<^verbatim>\<open>for (const node of selection)\<close> loop, and the loop.\<close>

fun copy_loop :: "nat list \<Rightarrow> nat list \<Rightarrow> nat list figma" where
  "copy_loop [] duplicates = return duplicates"
| "copy_loop (node # rest) duplicates =
     bind (clone node) (\<lambda>duplicate.
     bind (get_prop duplicate xpos) (\<lambda>x.
     bind (set_prop duplicate (\<lambda>p. p\<lparr>xpos := js_add x 20\<rparr>)) (\<lambda>_.
     bind (get_prop duplicate ypos) (\<lambda>y.
     bind (set_prop duplicate (\<lambda>p. p\<lparr>ypos := js_add y 20\<rparr>)) (\<lambda>_.
     bind (page_appendChild duplicate) (\<lambda>_.
     copy_loop rest (duplicates @ [duplicate])))))))"

definition copy_ready :: "string \<Rightarrow> string" where
  "copy_ready title = check_mark @ '' Ready to copy: '' @ title
     @ ''. Use Cmd+C (Mac) or Ctrl+C (Windows) to copy selected layers.''"

definition copy_body :: "string \<Rightarrow> string \<Rightarrow> unit figma" where
  "copy_body url title =
     bind get_selection (\<lambda>sel.
       if length sel = 0 then notify ''Please select a layer to copy first''
       else
         bind (notify (copy_ready title)) (\<lambda>_.
         bind (copy_loop sel []) (\<lambda>duplicates.
         bind (set_selection duplicates) (\<lambda>_.
         scrollAndZoomIntoView duplicates))))"

definition handleCopyLayer :: "string \<Rightarrow> string \<Rightarrow> unit figma" where
  "handleCopyLayer url title =
     try_catch (copy_body url title)
       (\<lambda>error. notify (''Error copying layer: '' @ errorMessage error))"

subsection \<open>\<^verbatim>\<open>handleInsertDesign\<close>\<close>

definition gradient :: paint where
  "gradient = GRADIENT_LINEAR
     [(0, double (4 / 10), double (49 / 100), double (92 / 100), 1),
      (1, double (46 / 100), double (64 / 100), double (29 / 100), 1)]
     [[0, 1, 0], [1, 0, 0]]"

definition insert_body :: "string \<Rightarrow> string \<Rightarrow> unit figma" where
  "insert_body url title =
     bind createFrame (\<lambda>frame.
     bind (set_prop frame (\<lambda>p. p\<lparr>name := title\<rparr>)) (\<lambda>_.
     bind (resize frame 400 300) (\<lambda>_.
     bind get_center (\<lambda>center_x.
     bind get_center (\<lambda>center_y.
     let viewportCenter = (js_sub (fst center_x) 200, js_sub (snd center_y) 150) in
     bind (set_prop frame (\<lambda>p. p\<lparr>xpos := fst viewportCenter\<rparr>)) (\<lambda>_.
     bind (set_prop frame (\<lambda>p. p\<lparr>ypos := snd viewportCenter\<rparr>)) (\<lambda>_.
     bind (set_prop frame (\<lambda>p. p\<lparr>fills := [gradient]\<rparr>)) (\<lambda>_.
     bind createText (\<lambda>text.
     bind (loadFontAsync (''Inter'', ''Regular'')) (\<lambda>_.
     bind (set_characters text title) (\<lambda>_.
     bind (set_prop text (\<lambda>p. p\<lparr>fontSize := 16\<rparr>)) (\<lambda>_.
     bind (set_prop text (\<lambda>p. p\<lparr>fills := [SOLID 1 1 1]\<rparr>)) (\<lambda>_.
     bind (set_prop text (\<lambda>p. p\<lparr>xpos := 20\<rparr>)) (\<lambda>_.
     bind (set_prop text (\<lambda>p. p\<lparr>ypos := 20\<rparr>)) (\<lambda>_.
     bind (appendChild frame text) (\<lambda>_.
     bind (page_appendChild frame) (\<lambda>_.
     bind (set_selection [frame]) (\<lambda>_.
     bind (scrollAndZoomIntoView [frame]) (\<lambda>_.
     notify (check_mark @ '' Inserted design: '' @ title))))))))))))))))))))"

definition handleInsertDesign :: "string \<Rightarrow> string \<Rightarrow> unit figma" where
  "handleInsertDesign url title =
     try_catch (insert_body url title)
       (\<lambda>error. notify (''Error inserting design: '' @ errorMessage error))"

subsection \<open>\<^verbatim>\<open>handleGoToFile\<close>\<close>

definition goto_body :: "string \<Rightarrow> string \<Rightarrow> unit figma" where
  "goto_body url title =
     bind (openExternal url) (\<lambda>_. notify (''Opening: '' @ title))"

definition handleGoToFile :: "string \<Rightarrow> string \<Rightarrow> unit figma" where
  "handleGoToFile url title =
     try_catch (goto_body url title)
       (\<lambda>error. notify (''Error opening file: '' @ errorMessage error))"

subsection \<open>\<^verbatim>\<open>figma.ui.onmessage\<close>\<close>

text \<open>
  The handlers are \<^verbatim>\<open>async\<close> functions and the dispatcher does not await them: a handler
  that throws rejects its promise, which nobody handles, and the dispatcher returns.
\<close>

definition not_awaited :: "unit figma \<Rightarrow> host \<Rightarrow> host" where
  "not_awaited m s =
     (case m s of
        (Inl t, s1) \<Rightarrow> s1\<lparr>unhandled := unhandled s1 @ [t]\<rparr>
      | (Inr _, s1) \<Rightarrow> s1)"

fun onmessage :: "plugin_message \<Rightarrow> host \<Rightarrow> host" where
  "onmessage (UserMessage text) s = s\<lparr>console := console s @ [''User message: '' @ text]\<rparr>"
| "onmessage (PreviewActionMessage action url title) s =
     (if action = ''copy'' then not_awaited (handleCopyLayer url title) s
      else if action = ''insert'' then not_awaited (handleInsertDesign url title) s
      else if action = ''goto'' then not_awaited (handleGoToFile url title) s
      else s)"

section \<open>Well-formed hosts and example hosts\<close>

text \<open>
  What the host guarantees of its own state: no two nodes share an id, an id it hands out
  next is not in use, and the selected nodes are in the document.
\<close>

definition well_formed :: "host \<Rightarrow> bool" where
  "well_formed s \<longleftrightarrow>
     distinct (node_ids (page s)) \<and>
     (\<forall>i \<in> set (node_ids (page s)). i < next_id s) \<and>
     (\<forall>i \<in> set (selection s). find_node i (page s) \<noteq> None)"

text \<open>A forest with its ids forgotten: two forests are copies of each other when these agree.\<close>

fun forget_ids :: "node list \<Rightarrow> node list" where
  "forget_ids [] = []"
| "forget_ids (Node p ks # ns) = Node (p\<lparr>nid := 0\<rparr>) (forget_ids ks) # forget_ids ns"

text \<open>
  \<open>offset_copy d src dup\<close>: the node \<open>dup\<close> is a copy of \<open>src\<close> whose coordinates are the
  JavaScript sums of those of \<open>src\<close> and \<open>d\<close>, that is the doubles nearest to the sums, which
  need not be \<open>d\<close> away from those of \<open>src\<close>. Apart from its id and its position \<open>dup\<close> has
  the properties of \<open>src\<close>, and below it is a copy of what is below \<open>src\<close>.
  \<open>copy_of pg i dup\<close>: \<open>dup\<close> is such a copy, for \<open>d = 20\<close>, of the node with id \<open>i\<close> of the
  forest \<open>pg\<close>.
\<close>

definition offset_copy :: "rat \<Rightarrow> node \<Rightarrow> node \<Rightarrow> bool" where
  "offset_copy d src dup \<longleftrightarrow>
     props dup = (props src)\<lparr>nid := nid (props dup),
        xpos := js_add (xpos (props src)) d, ypos := js_add (ypos (props src)) d\<rparr> \<and>
     forget_ids (children dup) = forget_ids (children src)"

definition copy_of :: "node list \<Rightarrow> nat \<Rightarrow> node \<Rightarrow> bool" where
  "copy_of pg i dup =
     (case find_node i pg of None \<Rightarrow> False | Some src \<Rightarrow> offset_copy 20 src dup)"

text \<open>
  \<open>exact_copy_of pg i dup\<close>: a coordinate of \<open>dup\<close> is exactly 20 more than that of the node
  with id \<open>i\<close> of the forest \<open>pg\<close>, if that sum is a double.
\<close>

definition exact_copy_of :: "node list \<Rightarrow> nat \<Rightarrow> node \<Rightarrow> bool" where
  "exact_copy_of pg i dup =
     (case find_node i pg of
        None \<Rightarrow> False
      | Some src \<Rightarrow>
          (double (xpos (props src) + 20) = xpos (props src) + 20
             \<longrightarrow> xpos (props dup) = xpos (props src) + 20) \<and>
          (double (ypos (props src) + 20) = ypos (props src) + 20
             \<longrightarrow> ypos (props dup) = ypos (props src) + 20))"

text \<open>
  A small document: a rectangle, and a frame that holds a second rectangle. The first
  rectangle and the nested one are selected; the host never throws.
\<close>

definition rectangle :: "nat \<Rightarrow> rat \<Rightarrow> rat \<Rightarrow> props" where
  "rectangle i a b = \<lparr>nid = i, ntype = RECTANGLE, name = ''Rectangle'', xpos = a, ypos = b,
     width = 10, height = 10, fills = [SOLID 0 0 0], characters = [],
     fontSize = 12, fontName = default_font\<rparr>"

definition example_host :: host where
  "example_host =
     \<lparr>page = [Node (rectangle 1 10 11) [], Node (new_frame 2) [Node (rectangle 3 5 6) []]],
      selection = [1, 3], center = (100, 100), framed = None, fonts = [], next_id = 4,
      notifications = [], opened = [], console = [], unhandled = [], ticks = 0,
      fault = (\<lambda>_. None), recenter = (\<lambda>_ _. (0, 0))\<rparr>"

text \<open>
  The example host with the viewport centered at (0.1, 100), 0.1 being the double nearest
  to one tenth, and with the viewport centered at (-250.5, 1000.25).
\<close>

definition fractional_host :: host where
  "fractional_host = example_host\<lparr>center := (double (1 / 10), 100)\<rparr>"

definition negative_host :: host where
  "negative_host = example_host\<lparr>center := (- 501 / 2, 4001 / 4)\<rparr>"

text \<open>
  A host whose one node, selected, lies at \<open>x = 12 + 2\<^sup>-\<^sup>4\<^sup>8\<close>, which is a double while
  \<open>x + 20\<close> is not.
\<close>

definition rounding_host :: host where
  "rounding_host = example_host\<lparr>page := [Node (rectangle 1 (3377699720527873 / 281474976710656) 11) []],
     selection := [1], next_id := 2\<rparr>"

text \<open>The example host, except that its first two host calls throw.\<close>

definition twice_failing_host :: host where
  "twice_failing_host = example_host\<lparr>fault :=
     (\<lambda>i. if i = 0 then Some (Error ''blocked'')
          else if i = 1 then Some (Error ''no notifications'') else None)\<rparr>"

text \<open>The example host, except that its host call number \<open>k\<close>, counted from 0, throws \<open>e\<close>.\<close>

definition failing_host :: "nat \<Rightarrow> thrown \<Rightarrow> host" where
  "failing_host k e = example_host\<lparr>fault := (\<lambda>i. if i = k then Some e else None)\<rparr>"

text \<open>\<open>keeps f m\<close>: the computation \<open>m\<close> never changes the part \<open>f\<close> of the host.\<close>

definition keeps :: "(host \<Rightarrow> 'a) \<Rightarrow> 'b figma \<Rightarrow> bool" where
  "keeps f m \<longleftrightarrow> (\<forall>s. f (snd (m s)) = f s)"

text \<open>\<open>preserves I m\<close>: the computation \<open>m\<close> takes hosts that satisfy \<open>I\<close> to such hosts.\<close>

definition preserves :: "(host \<Rightarrow> bool) \<Rightarrow> 'a figma \<Rightarrow> bool" where
  "preserves I m \<longleftrightarrow> (\<forall>s. I s \<longrightarrow> I (snd (m s)))"

section \<open>Properties\<close>

subsection \<open>Numbers\<close>

text \<open>Small integers are doubles, and their sums and differences are exact.\<close>

lemma js_add_examples:
  "js_add 10 20 = 30" "js_add 11 20 = 31" "js_add 5 20 = 25" "js_add 6 20 = 26"
  by code_simp+

lemma js_sub_examples:
  "js_sub 100 200 = - 100" "js_sub 100 150 = - 50"
  by code_simp+

text \<open>An integer below \<open>2\<^sup>5\<^sup>3\<close> in magnitude is a double.\<close>

lemma round_even_of_int: "round_even (of_int m) = m"
  by (simp add: round_even_def)

lemma double_minus: "double (- q) = - double q"
  by (simp add: double_def Let_def)

lemma exponent_of_int:
  assumes "0 < n"
  shows "exponent (of_int n) = bitlen n - 1"
proof -
  from bitlen_bounds [OF assms] have "2 ^ nat (bitlen n - 1) \<le> n" by simp
  then have "(of_int (2 ^ nat (bitlen n - 1)) :: rat) \<le> of_int n"
    by (simp only: of_int_le_iff)
  moreover have "0 \<le> bitlen n - 1"
    using assms by (simp add: bitlen_alt_def)
  ultimately have p: "(2::rat) powi (bitlen n - 1) \<le> of_int n"
    by (simp add: power_int_def)
  note p
  moreover have "bitlen 1 = 1"
    by (simp add: bitlen_alt_def)
  ultimately show ?thesis
    by (simp add: exponent_def Let_def)
qed

lemma double_of_pos_int:
  assumes "0 < n" and "n < 2 ^ 53"
  shows "double (of_int n) = of_int n"
proof -
  have le: "bitlen n \<le> 53"
  proof (rule ccontr)
    assume "\<not> bitlen n \<le> 53"
    then have "53 \<le> nat (bitlen n - 1)" by simp
    then have "(2::int) ^ 53 \<le> 2 ^ nat (bitlen n - 1)"
      by (intro power_increasing) simp_all
    with bitlen_bounds [OF assms(1)] assms(2) show False by simp
  qed
  define k where "k = nat (53 - bitlen n)"
  have e: "exponent (of_int n) - 52 = - int k"
    using assms(1) le by (simp add: exponent_of_int k_def)
  have u: "(2::rat) powi (- int k) = 1 / 2 ^ k"
    by (simp add: power_int_def field_simps)
  have "rat_of_int n * 2 ^ k = of_int (n * 2 ^ k)"
    by simp
  then have r: "round_even (rat_of_int n * 2 ^ k) = n * 2 ^ k"
    by (simp only: round_even_of_int)
  show ?thesis
    using assms(1) by (simp add: double_def Let_def e u r)
qed

lemma double_of_int: "\<bar>n\<bar> < 2 ^ 53 \<Longrightarrow> double (of_int n) = of_int n"
proof (cases "0 < n")
  case True
  assume "\<bar>n\<bar> < 2 ^ 53"
  with True show ?thesis by (simp add: double_of_pos_int)
next
  case False
  assume a: "\<bar>n\<bar> < 2 ^ 53"
  show ?thesis
  proof (cases "n = 0")
    case True
    then show ?thesis by (simp add: double_def)
  next
    case F: False
    with False a have "0 < - n" "- n < 2 ^ 53" by simp_all
    then have "double (of_int (- n)) = of_int (- n)" by (rule double_of_pos_int)
    then show ?thesis by (simp add: double_minus)
  qed
qed

text \<open>
  One tenth is not a double. Taking 200 from the double nearest to it rounds, and adding
  200 again does not give it back. The coordinates -250.5 and 1000.25 lose nothing.
\<close>

lemma double_tenth:
  "double (1 / 10) = 3602879701896397 / 36028797018963968"
  "js_sub (3602879701896397 / 36028797018963968) 200 = - (7033355980557517 / 35184372088832)"
  "js_add (- (7033355980557517 / 35184372088832)) 200 = 3518437208883 / 35184372088832"
  by code_simp+

lemma double_negative:
  "double (- 501 / 2 - 200) = - 501 / 2 - 200"
  "double (4001 / 4 - 150) = 4001 / 4 - 150"
  by code_simp+

subsection \<open>Host calls that do not throw\<close>

lemma quiet_None: "quiet s n \<Longrightarrow> i < n \<Longrightarrow> fault s (ticks s + i) = None"
  by (simp add: quiet_def)

lemma quiet_range: "quiet s n \<Longrightarrow> ticks s \<le> j \<Longrightarrow> j < ticks s + n \<Longrightarrow> fault s j = None"
  using quiet_None [of s n "j - ticks s"] by simp

lemma quiet_example: "quiet example_host n"
  by (simp add: quiet_def example_host_def)

lemma quiet_mono: "quiet s (a + b) \<Longrightarrow> quiet s a"
  by (simp add: quiet_def)

lemma quiet_shift:
  "quiet s (a + b) \<Longrightarrow> fault s' = fault s \<Longrightarrow> ticks s' = ticks s + a \<Longrightarrow> quiet s' b"
  by (simp add: quiet_def add.assoc)

subsection \<open>Sequencing, and what a computation leaves alone\<close>





lemma keeps_return: "keeps f (return a)"
  by (simp add: keeps_def return_def)

lemma keeps_bind: "keeps f m \<Longrightarrow> (\<And>a. keeps f (g a)) \<Longrightarrow> keeps f (bind m g)"
  unfolding keeps_def bind_def
  by (auto split: prod.splits sum.splits) (metis snd_conv)+

lemma keeps_try_catch: "keeps f m \<Longrightarrow> (\<And>e. keeps f (h e)) \<Longrightarrow> keeps f (try_catch m h)"
  unfolding keeps_def try_catch_def
  by (auto split: prod.splits sum.splits) (metis snd_conv)+

lemma keeps_if: "keeps f a \<Longrightarrow> keeps f b \<Longrightarrow> keeps f (if c then a else b)"
  by simp

lemma keepsD: "keeps f m \<Longrightarrow> m s = (r, s1) \<Longrightarrow> f s1 = f s"
  by (auto simp: keeps_def dest: spec [of _ s])

lemma keeps_unhandled:
  "keeps unhandled (notify msg)"
  "keeps unhandled (openExternal u)"
  "keeps unhandled get_selection"
  "keeps unhandled (set_selection ids)"
  "keeps unhandled get_center"
  "keeps unhandled (scrollAndZoomIntoView ids)"
  "keeps unhandled (get_prop i field)"
  "keeps unhandled (set_prop i g)"
  "keeps unhandled (clone i)"
  "keeps unhandled (page_appendChild i)"
  "keeps unhandled (appendChild i j)"
  "keeps unhandled createFrame"
  "keeps unhandled createText"
  "keeps unhandled (resize i w h)"
  "keeps unhandled (loadFontAsync font)"
  "keeps unhandled (set_characters i str)"
  by (simp_all add: keeps_def notify_def openExternal_def get_selection_def set_selection_def
      get_center_def scrollAndZoomIntoView_def get_prop_def set_prop_def clone_def
      page_appendChild_def appendChild_def createFrame_def createText_def create_node_def
      resize_def loadFontAsync_def set_characters_def host_call_def Let_def
      split: option.splits prod.splits)

lemma preserves_return: "preserves I (return a)"
  by (simp add: preserves_def return_def)

lemma preserves_bind:
  "preserves I m \<Longrightarrow> (\<And>a. preserves I (g a)) \<Longrightarrow> preserves I (bind m g)"
  unfolding preserves_def bind_def
  by (auto split: prod.splits sum.splits)

lemma preserves_try_catch:
  "preserves I m \<Longrightarrow> (\<And>e. preserves I (h e)) \<Longrightarrow> preserves I (try_catch m h)"
  unfolding preserves_def try_catch_def
  by (auto split: prod.splits sum.splits)

lemma preserves_if: "preserves I a \<Longrightarrow> preserves I b \<Longrightarrow> preserves I (if c then a else b)"
  by simp

subsection \<open>The forest\<close>

lemma node_ids_append: "node_ids (ns @ ms) = node_ids ns @ node_ids ms"
  by (induction ns rule: node_ids.induct) simp_all

lemma find_node_None: "i \<notin> set (node_ids ns) \<Longrightarrow> find_node i ns = None"
  by (induction i ns rule: find_node.induct) simp_all

lemma find_node_append_fresh:
  "i \<notin> set (node_ids ns) \<Longrightarrow> find_node i (ns @ ms) = find_node i ms"
  by (induction i ns rule: find_node.induct) (simp_all add: find_node_None)

lemma find_node_append_old: "find_node i ns = Some n \<Longrightarrow> find_node i (ns @ ms) = Some n"
  by (induction i ns rule: find_node.induct) (auto split: if_splits option.splits)

lemma update_node_fresh: "i \<notin> set (node_ids ns) \<Longrightarrow> update_node i f ns = ns"
  by (induction i f ns rule: update_node.induct) simp_all

lemma update_node_append:
  "update_node i f (ns @ ms) = update_node i f ns @ update_node i f ms"
  by (induction i f ns rule: update_node.induct) simp_all

lemma remove_node_fresh: "i \<notin> set (node_ids ns) \<Longrightarrow> remove_node i ns = ns"
  by (induction i ns rule: remove_node.induct) simp_all

lemma remove_node_append:
  "remove_node i (ns @ ms) = remove_node i ns @ remove_node i ms"
  by (induction i ns rule: remove_node.induct) simp_all

lemma add_child_None: "i \<notin> set (node_ids ns) \<Longrightarrow> add_child i c ns = ns"
  by (induction i c ns rule: add_child.induct) simp_all

lemma add_child_fresh:
  "i \<notin> set (node_ids ns) \<Longrightarrow> add_child i c (ns @ ms) = ns @ add_child i c ms"
  by (induction i c ns rule: add_child.induct) (simp_all add: add_child_None)


lemma relabel_ids: "relabel n ns = (ns', m) \<Longrightarrow> n \<le> m \<and> node_ids ns' = [n..<m]"
proof (induction n ns arbitrary: ns' m rule: relabel.induct)
  case (1 n)
  then show ?case by simp
next
  case (2 n p ks ns)
  obtain ks' n1 where k: "relabel (Suc n) ks = (ks', n1)" by (cases "relabel (Suc n) ks")
  obtain ns1 n2 where r: "relabel n1 ns = (ns1, n2)" by (cases "relabel n1 ns")
  from "2.IH"(1) [OF k] have a: "Suc n \<le> n1" "node_ids ks' = [Suc n..<n1]" by simp_all
  from "2.IH"(2) [OF k [symmetric] r] have b: "n1 \<le> n2" "node_ids ns1 = [n1..<n2]"
    by simp_all
  from "2.prems" k r have e: "ns' = Node (p\<lparr>nid := n\<rparr>) ks' # ns1" "m = n2" by simp_all
  have "[Suc n..<n2] = [Suc n..<n1] @ [n1..<n2]"
    using upt_add_eq_append [of "Suc n" n1 "n2 - n1"] a(1) b(1) by simp
  moreover have "[n..<n2] = n # [Suc n..<n2]"
    using a(1) b(1) by (simp add: upt_conv_Cons)
  ultimately have "[n..<n2] = n # [Suc n..<n1] @ [n1..<n2]" by simp
  with a b e show ?case by simp
qed

lemma relabel_forget: "relabel n ns = (ns', m) \<Longrightarrow> forget_ids ns' = forget_ids ns"
proof (induction n ns arbitrary: ns' m rule: relabel.induct)
  case (1 n)
  then show ?case by simp
next
  case (2 n p ks ns)
  obtain ks' n1 where k: "relabel (Suc n) ks = (ks', n1)" by (cases "relabel (Suc n) ks")
  obtain ns1 n2 where r: "relabel n1 ns = (ns1, n2)" by (cases "relabel n1 ns")
  from "2.prems" k r have e: "ns' = Node (p\<lparr>nid := n\<rparr>) ks' # ns1" by simp
  from "2.IH"(1) [OF k] "2.IH"(2) [OF k [symmetric] r] e show ?case by simp
qed

lemma find_node_None_iff: "find_node i ns = None \<longleftrightarrow> i \<notin> set (node_ids ns)"
  by (induction i ns rule: find_node.induct) (auto split: option.splits)

lemma top_ids_subset: "set (map (nid \<circ> props) ns) \<subseteq> set (node_ids ns)"
proof (induction ns)
  case Nil
  show ?case by simp
next
  case (Cons n ns)
  then show ?case by (cases n) auto
qed

lemma node_ids_update:
  "(\<And>p. nid (f p) = nid p) \<Longrightarrow> node_ids (update_node i f ns) = node_ids ns"
  by (induction i f ns rule: update_node.induct) simp_all

lemma mset_remove_node:
  "distinct (node_ids ns) \<Longrightarrow> find_node i ns = Some n \<Longrightarrow>
   mset (node_ids (remove_node i ns)) + mset (node_ids [n]) = mset (node_ids ns)"
proof (induction i ns rule: find_node.induct)
  case (1 i)
  then show ?case by simp
next
  case (2 i p ks ns)
  show ?case
  proof (cases "nid p = i")
    case True
    with "2.prems" have "n = Node p ks" "i \<notin> set (node_ids ns)" by auto
    then show ?thesis
      using True by (simp add: remove_node_fresh)
  next
    case False
    show ?thesis
    proof (cases "find_node i ks")
      case None
      with False "2.prems" have f: "find_node i ns = Some n" by simp
      from None have "i \<notin> set (node_ids ks)" by (simp add: find_node_None_iff)
      then have "remove_node i ks = ks" by (rule remove_node_fresh)
      moreover from "2.prems"(1) have "distinct (node_ids ns)" by simp
      ultimately show ?thesis
        using False "2.IH"(2) [OF False None _ f] by simp
    next
      case (Some m)
      with False "2.prems" have m: "m = n" by simp
      from Some have "i \<in> set (node_ids ks)"
        using find_node_None_iff [of i ks] by auto
      with "2.prems"(1) have "i \<notin> set (node_ids ns)" by auto
      then have "remove_node i ns = ns" by (rule remove_node_fresh)
      moreover from "2.prems"(1) have "distinct (node_ids ks)" by simp
      ultimately show ?thesis
        using False "2.IH"(1) [OF False _ Some [unfolded m]] by simp
    qed
  qed
qed

lemma mset_add_child:
  "distinct (node_ids ns) \<Longrightarrow> i \<in> set (node_ids ns) \<Longrightarrow>
   mset (node_ids (add_child i c ns)) = mset (node_ids ns) + mset (node_ids [c])"
proof (induction i c ns rule: add_child.induct)
  case (1 i c)
  then show ?case by simp
next
  case (2 i c p ks ns)
  show ?case
  proof (cases "nid p = i")
    case True
    then show ?thesis by (simp add: node_ids_append)
  next
    case False
    show ?thesis
    proof (cases "i \<in> set (node_ids ks)")
      case True
      with "2.prems"(1) have "i \<notin> set (node_ids ns)" by auto
      then have "add_child i c ns = ns" by (rule add_child_None)
      moreover from "2.prems"(1) have "distinct (node_ids ks)" by simp
      ultimately show ?thesis
        using False "2.IH"(1) [OF False _ True] by simp
    next
      case F: False
      with False "2.prems"(2) have n: "i \<in> set (node_ids ns)" by simp
      from F have "add_child i c ks = ks" by (rule add_child_None)
      moreover from "2.prems"(1) have "distinct (node_ids ns)" by simp
      ultimately show ?thesis
        using False "2.IH"(2) [OF False _ n] by simp
    qed
  qed
qed

subsection \<open>The host stays well-formed\<close>

text \<open>
  Every host call takes a well-formed host to a well-formed host, whether it throws or
  not; so do the handlers and the dispatcher, whatever the host does.
\<close>

lemma wf_ticks: "well_formed (s\<lparr>ticks := v\<rparr>) = well_formed s"
  by (simp add: well_formed_def)

lemma preserves_host_call:
  assumes "\<And>s. well_formed s \<Longrightarrow> well_formed (snd (m s))"
  shows "preserves well_formed (host_call m)"
  using assms
  by (auto simp: preserves_def host_call_def Let_def wf_ticks split: option.splits)

lemma wf_simple:
  "preserves well_formed (notify msg)"
  "preserves well_formed (openExternal u)"
  "preserves well_formed get_selection"
  "preserves well_formed get_center"
  "preserves well_formed (scrollAndZoomIntoView ids)"
  "preserves well_formed (get_prop i field)"
  "preserves well_formed (loadFontAsync font)"
  "preserves well_formed (set_selection ids)"
  unfolding notify_def openExternal_def get_selection_def get_center_def
    scrollAndZoomIntoView_def get_prop_def loadFontAsync_def set_selection_def
  by (rule preserves_host_call; simp add: well_formed_def split: option.splits)+

lemma wf_update:
  assumes "\<And>p. nid (f p) = nid p" and "well_formed s"
  shows "well_formed (s\<lparr>page := update_node i f (page s)\<rparr>)"
  using assms(2) node_ids_update [of f i "page s", OF assms(1)]
  by (simp add: well_formed_def find_node_None_iff)

lemma wf_set_prop:
  "(\<And>p. nid (f p) = nid p) \<Longrightarrow> preserves well_formed (set_prop i f)"
  unfolding set_prop_def
  by (rule preserves_host_call) (simp add: wf_update split: option.splits)

lemma wf_resize: "preserves well_formed (resize i w h)"
  unfolding resize_def
  by (rule preserves_host_call) (simp add: wf_update split: option.splits)

lemma wf_set_characters: "preserves well_formed (set_characters i str)"
  unfolding set_characters_def
  by (rule preserves_host_call) (simp add: wf_update split: option.splits)

lemma wf_append:
  assumes "well_formed s" and "node_ids c = [next_id s..<m]" and "next_id s \<le> m"
  shows "well_formed (s\<lparr>page := page s @ c, next_id := m\<rparr>)"
proof -
  from assms have "distinct (node_ids (page s @ c))"
    by (auto simp: well_formed_def node_ids_append)
  moreover from assms have "\<forall>i \<in> set (node_ids (page s @ c)). i < m"
    by (auto simp: well_formed_def node_ids_append)
  moreover from assms(1) have "\<forall>i \<in> set (selection s). find_node i (page s @ c) \<noteq> None"
    by (auto simp: well_formed_def find_node_None_iff node_ids_append)
  ultimately show ?thesis by (simp add: well_formed_def)
qed

lemma wf_clone: "preserves well_formed (clone i)"
  unfolding clone_def
proof (rule preserves_host_call)
  fix s
  assume s: "well_formed s"
  show "well_formed (snd (case find_node i (page s) of
       None \<Rightarrow> (Inl missing, s)
     | Some n \<Rightarrow>
         (case relabel (next_id s) [n] of (c, m) \<Rightarrow>
            (Inr (next_id s), s\<lparr>page := page s @ c, next_id := m\<rparr>))))"
  proof (cases "find_node i (page s)")
    case None
    with s show ?thesis by simp
  next
    case (Some n)
    obtain c m where r: "relabel (next_id s) [n] = (c, m)"
      by (cases "relabel (next_id s) [n]")
    from relabel_ids [OF r] wf_append [OF s, of c m] show ?thesis
      by (simp add: Some r)
  qed
qed

lemma wf_create_node:
  "(\<And>i. nid (mk i) = i) \<Longrightarrow> preserves well_formed (create_node mk)"
  unfolding create_node_def
proof (rule preserves_host_call)
  fix s
  assume mk: "\<And>i. nid (mk i) = i" and s: "well_formed s"
  have "node_ids [Node (mk (next_id s)) []] = [next_id s..<Suc (next_id s)]"
    by (simp add: mk)
  from wf_append [OF s this] show "well_formed (snd (Inr (next_id s),
      s\<lparr>page := page s @ [Node (mk (next_id s)) []], next_id := Suc (next_id s)\<rparr>))"
    by simp
qed

lemma wf_same_ids:
  assumes "well_formed s" and "mset (node_ids pg) = mset (node_ids (page s))"
  shows "well_formed (s\<lparr>page := pg\<rparr>)"
proof -
  from assms(2) have "set (node_ids pg) = set (node_ids (page s))"
    by (rule mset_eq_setD)
  moreover from assms(2) have "distinct (node_ids pg) = distinct (node_ids (page s))"
    by (rule mset_eq_imp_distinct_iff)
  ultimately show ?thesis
    using assms(1) by (simp add: well_formed_def find_node_None_iff)
qed

lemma wf_page_appendChild: "preserves well_formed (page_appendChild i)"
  unfolding page_appendChild_def
proof (rule preserves_host_call)
  fix s
  assume s: "well_formed s"
  show "well_formed (snd (case find_node i (page s) of
       None \<Rightarrow> (Inl missing, s)
     | Some n \<Rightarrow> (Inr (), s\<lparr>page := remove_node i (page s) @ [n]\<rparr>)))"
  proof (cases "find_node i (page s)")
    case None
    with s show ?thesis by simp
  next
    case (Some n)
    from s have "distinct (node_ids (page s))" by (simp add: well_formed_def)
    from mset_remove_node [OF this Some]
    have "mset (node_ids (remove_node i (page s) @ [n])) = mset (node_ids (page s))"
      by (simp add: node_ids_append)
    from wf_same_ids [OF s this] show ?thesis
      by (simp add: Some)
  qed
qed

lemma wf_appendChild: "preserves well_formed (appendChild i j)"
  unfolding appendChild_def
proof (rule preserves_host_call)
  fix s
  assume s: "well_formed s"
  show "well_formed (snd (case find_node j (page s) of
       None \<Rightarrow> (Inl missing, s)
     | Some c \<Rightarrow>
         (let rest = remove_node j (page s)
          in if find_node i rest = None
             then (Inl (Error ''Cannot move the node into itself''), s)
             else (Inr (), s\<lparr>page := add_child i c rest\<rparr>))))"
  proof (cases "find_node j (page s)")
    case None
    with s show ?thesis by simp
  next
    case (Some c)
    show ?thesis
    proof (cases "find_node i (remove_node j (page s)) = None")
      case True
      with s show ?thesis by (simp add: Some)
    next
      case False
      from s have d: "distinct (node_ids (page s))" by (simp add: well_formed_def)
      note r = mset_remove_node [OF d Some]
      from r have "mset (node_ids (remove_node j (page s)) @ node_ids [c]) =
          mset (node_ids (page s))"
        by simp
      then have "distinct (node_ids (remove_node j (page s)) @ node_ids [c]) =
          distinct (node_ids (page s))"
        by (rule mset_eq_imp_distinct_iff)
      with d have dr: "distinct (node_ids (remove_node j (page s)))"
        by simp
      from False have "i \<in> set (node_ids (remove_node j (page s)))"
        by (simp add: find_node_None_iff)
      from mset_add_child [OF dr this, of c] r
      have "mset (node_ids (add_child i c (remove_node j (page s)))) = mset (node_ids (page s))"
        by simp
      moreover from False obtain y where "find_node i (remove_node j (page s)) = Some y"
        by auto
      ultimately show ?thesis
        using wf_same_ids [OF s] by (simp add: Some Let_def)
    qed
  qed
qed


lemma wf_copy_loop: "preserves well_formed (copy_loop sel dups)"
  by (induction sel arbitrary: dups)
    (simp_all add: preserves_return preserves_bind wf_clone wf_simple
      wf_set_prop wf_page_appendChild)

lemma wf_handleCopyLayer: "preserves well_formed (handleCopyLayer url title)"
  unfolding handleCopyLayer_def copy_body_def
  by (intro preserves_try_catch preserves_bind preserves_if wf_simple wf_copy_loop)

lemma wf_handleInsertDesign: "preserves well_formed (handleInsertDesign url title)"
  unfolding handleInsertDesign_def insert_body_def Let_def createFrame_def createText_def
  by (intro preserves_try_catch preserves_bind wf_simple wf_set_prop wf_resize
      wf_set_characters wf_create_node wf_appendChild wf_page_appendChild)
    (simp_all add: new_frame_def new_text_def)

lemma wf_handleGoToFile: "preserves well_formed (handleGoToFile url title)"
  unfolding handleGoToFile_def goto_body_def
  by (intro preserves_try_catch preserves_bind wf_simple)

lemma wf_not_awaited: "preserves well_formed m \<Longrightarrow> well_formed s \<Longrightarrow> well_formed (not_awaited m s)"
  by (auto simp: preserves_def not_awaited_def well_formed_def split: prod.splits sum.splits
      dest!: spec [of _ s])

lemma wf_onmessage: "well_formed s \<Longrightarrow> well_formed (onmessage msg s)"
  by (cases msg)
    (simp_all add: wf_not_awaited wf_handleCopyLayer wf_handleInsertDesign
      wf_handleGoToFile, simp add: well_formed_def)

subsection \<open>The dispatcher\<close>

text \<open>
  C7. A \<^verbatim>\<open>preview-action\<close> message whose action is none of \<^verbatim>\<open>copy\<close>, \<^verbatim>\<open>insert\<close> and
  \<^verbatim>\<open>goto\<close> leaves the host exactly as it was: no mutation, no notification, no host call.
\<close>

theorem unknown_action_ignored:
  "action \<noteq> ''copy'' \<and> action \<noteq> ''insert'' \<and> action \<noteq> ''goto''
   \<longrightarrow> onmessage (PreviewActionMessage action url title) s = s"
  by simp

theorem unknown_action_ignored_witness:
  "onmessage (PreviewActionMessage ''delete'' ''https://figma.com/x'' ''Login Screen'')
     example_host = example_host"
  using unknown_action_ignored
    [of "''delete''" "''https://figma.com/x''" "''Login Screen''" example_host]
  by simp

subsection \<open>\<^verbatim>\<open>goto\<close>\<close>

text \<open>
  C6. Handling \<^verbatim>\<open>goto\<close> never changes the document (page, selection, viewport, fonts, ids),
  whatever the host does. When the two host calls it makes do not throw, its whole effect
  is one \<^verbatim>\<open>openExternal\<close> with the url as given and one notification that ends in the
  title as given.
\<close>

theorem goto_opens_and_notifies:
  fixes s url title
  defines "s' \<equiv> onmessage (PreviewActionMessage ''goto'' url title) s"
  shows "page s' = page s \<and> selection s' = selection s \<and> center s' = center s
     \<and> framed s' = framed s \<and> fonts s' = fonts s \<and> next_id s' = next_id s
     \<and> (quiet s 2 \<longrightarrow>
          s' = s\<lparr>ticks := ticks s + 2, opened := opened s @ [url],
                 notifications := notifications s @ [''Opening: '' @ title]\<rparr>)"
proof -
  have frame: "page s' = page s \<and> selection s' = selection s \<and> center s' = center s
     \<and> framed s' = framed s \<and> fonts s' = fonts s \<and> next_id s' = next_id s"
    unfolding s'_def
    by (simp add: not_awaited_def handleGoToFile_def goto_body_def try_catch_def bind_def
        openExternal_def notify_def host_call_def Let_def split: option.splits)
  have "s' = s\<lparr>ticks := ticks s + 2, opened := opened s @ [url],
                 notifications := notifications s @ [''Opening: '' @ title]\<rparr>"
    if q: "quiet s 2"
  proof -
    have f0: "fault s (ticks s) = None" and f1: "fault s (Suc (ticks s)) = None"
      using quiet_None [OF q, of 0] quiet_None [OF q, of 1] by simp_all
    show ?thesis
      unfolding s'_def
      by (simp add: not_awaited_def handleGoToFile_def goto_body_def try_catch_def bind_def
        openExternal_def notify_def host_call_def Let_def f0 f1)
  qed
  with frame show ?thesis by blast
qed

theorem goto_opens_and_notifies_witness:
  "quiet example_host 2 \<and>
   onmessage (PreviewActionMessage ''goto'' ''https://figma.com/x'' ''Login Screen'')
     example_host =
   example_host\<lparr>ticks := 2, opened := [''https://figma.com/x''],
                 notifications := [''Opening: Login Screen'']\<rparr>"
proof -
  have q: "quiet example_host 2" by (rule quiet_example)
  have "ticks example_host = 0" "opened example_host = []" "notifications example_host = []"
    by (simp_all add: example_host_def)
  with q goto_opens_and_notifies
    [of "''https://figma.com/x''" "''Login Screen''" example_host]
  show ?thesis by simp
qed

subsection \<open>\<^verbatim>\<open>copy\<close>\<close>

text \<open>
  One round of the loop when no host call throws, then the whole loop, then the handler:
  the copies are appended to the page in the order of the selection, each found from its
  source in the page as it was before the first round.
\<close>

lemma copy_step:
  assumes fresh: "\<forall>i \<in> set (node_ids (page s)). i < next_id s"
    and src: "find_node i (page s) = Some (Node p ks)"
    and q: "quiet s 6"
    and r: "relabel (Suc (next_id s)) ks = (ks', m)"
  shows "copy_loop (i # rest) dups s =
     copy_loop rest (dups @ [next_id s])
       (s\<lparr>page := page s @
            [Node (p\<lparr>nid := next_id s, xpos := js_add (xpos p) 20, ypos := js_add (ypos p) 20\<rparr>) ks'],
          next_id := m, ticks := ticks s + 6\<rparr>)"
proof -
  have f: "\<And>j. ticks s \<le> j \<Longrightarrow> j < ticks s + 6 \<Longrightarrow> fault s j = None"
    using quiet_range [OF q] by simp
  have n: "next_id s \<notin> set (node_ids (page s))"
    using fresh by auto
  from relabel_ids [OF r] have k: "next_id s \<notin> set (node_ids ks')" by simp
  have "copy_loop (i # rest) dups s =
     copy_loop rest (dups @ [next_id s])
       (s\<lparr>next_id := m, ticks := Suc (Suc (Suc (Suc (Suc (Suc (ticks s)))))),
          page := page s @
            [Node (p\<lparr>nid := next_id s, xpos := js_add (xpos p) 20, ypos := js_add (ypos p) 20\<rparr>) ks']\<rparr>)"
    by (simp add: bind_def clone_def get_prop_def set_prop_def page_appendChild_def
        host_call_def Let_def f src r find_node_append_fresh n k
        update_node_append update_node_fresh remove_node_append remove_node_fresh)
  also have "(s\<lparr>next_id := m, ticks := Suc (Suc (Suc (Suc (Suc (Suc (ticks s)))))),
          page := page s @
            [Node (p\<lparr>nid := next_id s, xpos := js_add (xpos p) 20, ypos := js_add (ypos p) 20\<rparr>) ks']\<rparr>)
     = (s\<lparr>page := page s @
            [Node (p\<lparr>nid := next_id s, xpos := js_add (xpos p) 20, ypos := js_add (ypos p) 20\<rparr>) ks'],
          next_id := m, ticks := ticks s + 6\<rparr>)"
    by simp
  finally show ?thesis .
qed

lemma copy_of_append:
  "find_node i pg \<noteq> None \<Longrightarrow> copy_of (pg @ ms) i d \<Longrightarrow> copy_of pg i d"
  by (auto simp: copy_of_def find_node_append_old)

lemma copy_loop_result:
  assumes "\<forall>i \<in> set (node_ids (page s)). i < next_id s"
    and "\<forall>i \<in> set sel. find_node i (page s) \<noteq> None"
    and "quiet s (6 * length sel)"
  shows "\<exists>cs m. copy_loop sel dups s =
           (Inr (dups @ map (nid \<circ> props) cs),
            s\<lparr>page := page s @ cs, next_id := m, ticks := ticks s + 6 * length sel\<rparr>)
         \<and> list_all2 (copy_of (page s)) sel cs
         \<and> next_id s \<le> m \<and> node_ids cs = [next_id s..<m]"
  using assms
proof (induction sel arbitrary: s dups)
  case Nil
  have "s = s\<lparr>page := page s, next_id := next_id s, ticks := ticks s\<rparr>" by simp
  then show ?case
    by (intro exI [of _ "[]"] exI [of _ "next_id s"]) (simp add: return_def)
next
  case (Cons i rest)
  from Cons.prems(2) obtain p ks where src: "find_node i (page s) = Some (Node p ks)"
    by (cases "find_node i (page s)") (auto intro: node.exhaust)
  obtain ks' m1 where r: "relabel (Suc (next_id s)) ks = (ks', m1)"
    by (cases "relabel (Suc (next_id s)) ks")
  define c where "c = Node (p\<lparr>nid := next_id s, xpos := js_add (xpos p) 20, ypos := js_add (ypos p) 20\<rparr>) ks'"
  define s1 where "s1 = s\<lparr>page := page s @ [c], next_id := m1, ticks := ticks s + 6\<rparr>"
  from Cons.prems(3) have q6: "quiet s 6" and q1: "quiet s1 (6 * length rest)"
    using quiet_mono [of s 6 "6 * length rest"]
      quiet_shift [of s 6 "6 * length rest" s1]
    by (simp_all add: s1_def)
  have step: "copy_loop (i # rest) dups s = copy_loop rest (dups @ [next_id s]) s1"
    unfolding s1_def c_def by (rule copy_step [OF Cons.prems(1) src q6 r])
  from relabel_ids [OF r] have k: "Suc (next_id s) \<le> m1" "node_ids ks' = [Suc (next_id s)..<m1]"
    by simp_all
  have idc: "node_ids [c] = [next_id s..<m1]"
    using k by (simp add: c_def upt_conv_Cons)
  have fresh1: "\<forall>j \<in> set (node_ids (page s1)). j < next_id s1"
    using Cons.prems(1) k(1) by (auto simp: s1_def node_ids_append idc)
  have present1: "\<forall>j \<in> set rest. find_node j (page s1) \<noteq> None"
    using Cons.prems(2) by (auto simp: s1_def find_node_append_old)
  from Cons.IH [OF fresh1 present1 q1, of "dups @ [next_id s]"]
  obtain cs m where
    run: "copy_loop rest (dups @ [next_id s]) s1 =
           (Inr ((dups @ [next_id s]) @ map (nid \<circ> props) cs),
            s1\<lparr>page := page s1 @ cs, next_id := m, ticks := ticks s1 + 6 * length rest\<rparr>)"
    and all: "list_all2 (copy_of (page s1)) rest cs"
    and le: "next_id s1 \<le> m" and ids: "node_ids cs = [next_id s1..<m]"
    by blast
  have head: "copy_of (page s) i c"
    using relabel_forget [OF r] by (simp add: copy_of_def src offset_copy_def c_def)
  have tail: "list_all2 (copy_of (page s)) rest cs"
    using all
  proof (rule list.rel_mono_strong)
    fix j d
    assume "j \<in> set rest" and "copy_of (page s1) j d"
    with Cons.prems(2) show "copy_of (page s) j d"
      by (auto simp: s1_def intro: copy_of_append)
  qed
  have "node_ids (c # cs) = node_ids [c] @ node_ids cs"
    using node_ids_append [of "[c]" cs] by simp
  also have "\<dots> = [next_id s..<m]"
    using idc ids le k(1) upt_add_eq_append [of "next_id s" m1 "m - m1"]
    by (simp add: s1_def)
  finally have ids': "node_ids (c # cs) = [next_id s..<m]" .
  have "copy_loop (i # rest) dups s =
           (Inr (dups @ map (nid \<circ> props) (c # cs)),
            s\<lparr>page := page s @ (c # cs), next_id := m,
              ticks := ticks s + 6 * length (i # rest)\<rparr>)"
    unfolding step run by (simp add: s1_def c_def)
  moreover have "list_all2 (copy_of (page s)) (i # rest) (c # cs)"
    using head tail by simp
  moreover have "next_id s \<le> m"
    using le k(1) by (simp add: s1_def)
  ultimately show ?case
    using ids' by blast
qed

lemma copy_result:
  assumes wf: "well_formed s" and ne: "selection s \<noteq> []"
    and q: "quiet s (6 * length (selection s) + 4)"
  shows "\<exists>cs m. onmessage (PreviewActionMessage ''copy'' url title) s =
           s\<lparr>page := page s @ cs,
             selection := map (nid \<circ> props) cs,
             center := recenter s (page s @ cs) (map (nid \<circ> props) cs),
             framed := Some (map (nid \<circ> props) cs),
             next_id := m,
             notifications := notifications s @ [copy_ready title],
             ticks := ticks s + (6 * length (selection s) + 4)\<rparr>
         \<and> list_all2 (copy_of (page s)) (selection s) cs
         \<and> next_id s \<le> m \<and> node_ids cs = [next_id s..<m]"
proof -
  define N where "N = length (selection s)"
  define s2 where
    "s2 = s\<lparr>ticks := ticks s + 2, notifications := notifications s @ [copy_ready title]\<rparr>"
  have f: "\<And>j. ticks s \<le> j \<Longrightarrow> j < ticks s + (6 * N + 4) \<Longrightarrow> fault s j = None"
    using quiet_range [OF q] by (simp add: N_def)
  have e: "2 + 6 * length (selection s) + 2 = 6 * length (selection s) + 4"
    by simp
  have "quiet s (2 + 6 * length (selection s) + 2)"
    unfolding e by (rule q)
  then have "quiet s (2 + 6 * length (selection s))"
    by (rule quiet_mono)
  then have q2: "quiet s2 (6 * length (selection s))"
    by (rule quiet_shift) (simp_all add: s2_def)
  have fresh2: "\<forall>i \<in> set (node_ids (page s2)). i < next_id s2"
    and present2: "\<forall>i \<in> set (selection s). find_node i (page s2) \<noteq> None"
    using wf by (simp_all add: well_formed_def s2_def)
  from copy_loop_result [OF fresh2 present2 q2, of "[]"]
  obtain cs m where
    run: "copy_loop (selection s) [] s2 =
           (Inr (map (nid \<circ> props) cs),
            s2\<lparr>page := page s2 @ cs, next_id := m, ticks := ticks s2 + 6 * N\<rparr>)"
    and all: "list_all2 (copy_of (page s2)) (selection s) cs"
    and le: "next_id s2 \<le> m" and ids: "node_ids cs = [next_id s2..<m]"
    by (auto simp: N_def)
  have found: "\<forall>i \<in> set (map (nid \<circ> props) cs). find_node i (page s @ cs) \<noteq> None"
  proof
    fix i
    assume "i \<in> set (map (nid \<circ> props) cs)"
    with top_ids_subset [of cs] have "i \<in> set (node_ids (page s @ cs))"
      by (auto simp: node_ids_append)
    then show "find_node i (page s @ cs) \<noteq> None"
      by (simp only: find_node_None_iff not_not)
  qed
  have "onmessage (PreviewActionMessage ''copy'' url title) s =
           s\<lparr>page := page s @ cs,
             selection := map (nid \<circ> props) cs,
             center := recenter s (page s @ cs) (map (nid \<circ> props) cs),
             framed := Some (map (nid \<circ> props) cs),
             next_id := m,
             notifications := notifications s @ [copy_ready title],
             ticks := ticks s + (6 * length (selection s) + 4)\<rparr>"
    using ne found run unfolding s2_def N_def
    by (simp add: not_awaited_def handleCopyLayer_def copy_body_def try_catch_def bind_def
        get_selection_def notify_def host_call_def Let_def f [unfolded N_def]
        set_selection_def scrollAndZoomIntoView_def)
  with all le ids show ?thesis
    by (auto simp: s2_def)
qed

lemma parent_in_None: "i \<notin> set (node_ids ns) \<Longrightarrow> parent_in q i ns = None"
  by (induction q i ns rule: parent_in.induct) simp_all

lemma parent_in_append_fresh:
  "i \<notin> set (node_ids ns) \<Longrightarrow> parent_in q i (ns @ ms) = parent_in q i ms"
  by (induction q i ns rule: parent_in.induct) (simp_all add: parent_in_None)

lemma parent_in_top:
  "distinct (node_ids ns) \<Longrightarrow> c \<in> set ns \<Longrightarrow> parent_in q (nid (props c)) ns = Some q"
proof (induction ns)
  case Nil
  then show ?case by simp
next
  case (Cons n ns)
  obtain p ks where n: "n = Node p ks" by (cases n)
  show ?case
  proof (cases "c = n")
    case True
    then show ?thesis by (simp add: n)
  next
    case False
    with Cons.prems have c: "c \<in> set ns" by simp
    with top_ids_subset [of ns] have "nid (props c) \<in> set (node_ids ns)" by auto
    with Cons.prems(1) have "nid (props c) \<noteq> nid p" "nid (props c) \<notin> set (node_ids ks)"
      by (auto simp: n)
    moreover from Cons.prems(1) have "distinct (node_ids ns)" by (simp add: n)
    ultimately show ?thesis
      using Cons.IH c by (simp add: n parent_in_None)
  qed
qed

lemma well_formed_example: "well_formed example_host"
  by (simp add: well_formed_def example_host_def rectangle_def new_frame_def)

lemma copy_example:
  "onmessage (PreviewActionMessage ''copy'' ''https://figma.com/x'' ''Login Screen'')
     example_host =
   example_host\<lparr>page := page example_host @
       [Node (rectangle 4 30 31) [], Node (rectangle 5 25 26) []],
     selection := [4, 5], framed := Some [4, 5], center := (0, 0), next_id := 6,
     notifications := [copy_ready ''Login Screen''], ticks := 16\<rparr>"
  by (simp add: example_host_def rectangle_def new_frame_def js_add_examples not_awaited_def
      handleCopyLayer_def copy_body_def try_catch_def bind_def return_def
      get_selection_def notify_def host_call_def Let_def set_selection_def
      scrollAndZoomIntoView_def clone_def get_prop_def set_prop_def page_appendChild_def)

lemma copy_of_exact:
  assumes "copy_of pg i dup"
  shows "exact_copy_of pg i dup"
proof -
  from assms obtain src where src: "find_node i pg = Some src"
    and eq: "props dup = (props src)\<lparr>nid := nid (props dup),
        xpos := js_add (xpos (props src)) 20, ypos := js_add (ypos (props src)) 20\<rparr>"
    by (auto simp: copy_of_def offset_copy_def split: option.splits)
  have "xpos (props dup) = double (xpos (props src) + 20)"
    "ypos (props dup) = double (ypos (props src) + 20)"
    using arg_cong [where f = xpos, OF eq] arg_cong [where f = ypos, OF eq]
    by (simp_all add: js_add_def)
  then show ?thesis
    by (simp add: exact_copy_of_def src)
qed

lemma rounding_examples:
  "double (3377699720527873 / 281474976710656) = 3377699720527873 / 281474976710656"
  "js_add (3377699720527873 / 281474976710656) 20 = 32"
  by code_simp+

lemma copy_rounding:
  "onmessage (PreviewActionMessage ''copy'' ''https://figma.com/x'' ''Login Screen'')
     rounding_host =
   rounding_host\<lparr>page := page rounding_host @ [Node (rectangle 2 32 31) []],
     selection := [2], framed := Some [2], center := (0, 0), next_id := 3,
     notifications := [copy_ready ''Login Screen''], ticks := 10\<rparr>"
  by (simp add: rounding_host_def example_host_def rectangle_def js_add_examples
      rounding_examples not_awaited_def
      handleCopyLayer_def copy_body_def try_catch_def bind_def return_def
      get_selection_def notify_def host_call_def Let_def set_selection_def
      scrollAndZoomIntoView_def clone_def get_prop_def set_prop_def page_appendChild_def)

text \<open>
  C5. Handling \<^verbatim>\<open>copy\<close> while nothing is selected never changes the document, whatever the
  host does. When the two host calls it makes do not throw, its whole effect is the one
  notification that asks to select a layer.
\<close>

theorem copy_nothing_selected:
  fixes s url title
  defines "s' \<equiv> onmessage (PreviewActionMessage ''copy'' url title) s"
  shows "selection s = [] \<longrightarrow>
     page s' = page s \<and> selection s' = selection s \<and> center s' = center s
     \<and> framed s' = framed s \<and> fonts s' = fonts s \<and> next_id s' = next_id s
     \<and> opened s' = opened s
     \<and> (quiet s 2 \<longrightarrow>
          s' = s\<lparr>ticks := ticks s + 2,
                 notifications := notifications s @ [''Please select a layer to copy first'']\<rparr>)"
proof
  assume e: "selection s = []"
  have frame: "page s' = page s \<and> selection s' = selection s \<and> center s' = center s
     \<and> framed s' = framed s \<and> fonts s' = fonts s \<and> next_id s' = next_id s
     \<and> opened s' = opened s"
    unfolding s'_def
    by (simp add: not_awaited_def handleCopyLayer_def copy_body_def try_catch_def bind_def
        get_selection_def notify_def host_call_def Let_def e split: option.splits)
  have "s' = s\<lparr>ticks := ticks s + 2,
                 notifications := notifications s @ [''Please select a layer to copy first'']\<rparr>"
    if q: "quiet s 2"
  proof -
    have f0: "fault s (ticks s) = None" and f1: "fault s (Suc (ticks s)) = None"
      using quiet_None [OF q, of 0] quiet_None [OF q, of 1] by simp_all
    show ?thesis
      unfolding s'_def
      by (simp add: not_awaited_def handleCopyLayer_def copy_body_def try_catch_def bind_def
        get_selection_def notify_def host_call_def Let_def e f0 f1)
  qed
  with frame show "page s' = page s \<and> selection s' = selection s \<and> center s' = center s
     \<and> framed s' = framed s \<and> fonts s' = fonts s \<and> next_id s' = next_id s
     \<and> opened s' = opened s
     \<and> (quiet s 2 \<longrightarrow>
          s' = s\<lparr>ticks := ticks s + 2,
                 notifications := notifications s @ [''Please select a layer to copy first'']\<rparr>)"
    by blast
qed

theorem copy_nothing_selected_witness:
  "selection (example_host\<lparr>selection := []\<rparr>) = [] \<and>
   quiet (example_host\<lparr>selection := []\<rparr>) 2 \<and>
   onmessage (PreviewActionMessage ''copy'' ''https://figma.com/x'' ''Login Screen'')
     (example_host\<lparr>selection := []\<rparr>) =
   example_host\<lparr>selection := [], ticks := 2,
     notifications := [''Please select a layer to copy first'']\<rparr>"
proof -
  have q: "quiet (example_host\<lparr>selection := []\<rparr>) 2"
    by (simp add: quiet_def example_host_def)
  have "ticks example_host = 0" "notifications example_host = []"
    by (simp_all add: example_host_def)
  with q copy_nothing_selected
    [of "example_host\<lparr>selection := []\<rparr>" "''https://figma.com/x''" "''Login Screen''"]
  show ?thesis by simp
qed

text \<open>
  C1, as the code has it. Handling \<^verbatim>\<open>copy\<close> with \<open>N\<close> nodes selected, on a well-formed host
  whose calls do not throw: the page gains exactly \<open>N\<close> children at its end, with fresh
  ids for them and for what is below them; the \<open>k\<close>-th of them is a copy of the \<open>k\<close>-th
  selected node as the page had it before, with \<open>x\<close> and \<open>y\<close> the JavaScript sums of the
  source's and 20 (each from its own source, not from the copy before it), which is
  exactly 20 more wherever that sum is a double; the selection becomes these \<open>N\<close> nodes in
  that order, and the viewport is framed on them.
\<close>

theorem copy_duplicates_selection:
  fixes s url title
  defines "s' \<equiv> onmessage (PreviewActionMessage ''copy'' url title) s"
  assumes "well_formed s" and "selection s \<noteq> []"
    and "quiet s (6 * length (selection s) + 4)"
  shows "\<exists>cs. page s' = page s @ cs
     \<and> length cs = length (selection s)
     \<and> list_all2 (copy_of (page s)) (selection s) cs
     \<and> list_all2 (exact_copy_of (page s)) (selection s) cs
     \<and> node_ids cs = [next_id s..<next_id s']
     \<and> selection s' = map (nid \<circ> props) cs
     \<and> framed s' = Some (selection s')
     \<and> center s' = recenter s (page s') (selection s')"
proof -
  from copy_result [OF assms(2-4), of url title] obtain cs m where
    r: "s' = s\<lparr>page := page s @ cs,
             selection := map (nid \<circ> props) cs,
             center := recenter s (page s @ cs) (map (nid \<circ> props) cs),
             framed := Some (map (nid \<circ> props) cs),
             next_id := m,
             notifications := notifications s @ [copy_ready title],
             ticks := ticks s + (6 * length (selection s) + 4)\<rparr>"
    and all: "list_all2 (copy_of (page s)) (selection s) cs"
    and ids: "node_ids cs = [next_id s..<m]"
    unfolding s'_def by blast
  from all have "length cs = length (selection s)"
    by (simp add: list_all2_lengthD)
  moreover from all have "list_all2 (exact_copy_of (page s)) (selection s) cs"
    by (rule list_all2_mono) (rule copy_of_exact)
  ultimately show ?thesis
    using r all ids by (intro exI [of _ cs]) simp
qed

theorem copy_duplicates_selection_witness:
  "well_formed example_host \<and> selection example_host \<noteq> [] \<and>
   quiet example_host (6 * length (selection example_host) + 4) \<and>
   double (10 + 20) = 10 + 20 \<and> double (11 + 20) = 11 + 20 \<and>
   double (5 + 20) = 5 + 20 \<and> double (6 + 20) = 6 + 20 \<and>
   (\<exists>cs. page (onmessage (PreviewActionMessage ''copy'' ''u'' ''t'') example_host) =
            page example_host @ cs
     \<and> length cs = length (selection example_host)
     \<and> list_all2 (copy_of (page example_host)) (selection example_host) cs
     \<and> list_all2 (exact_copy_of (page example_host)) (selection example_host) cs
     \<and> node_ids cs =
         [next_id example_host..<
          next_id (onmessage (PreviewActionMessage ''copy'' ''u'' ''t'') example_host)]
     \<and> selection (onmessage (PreviewActionMessage ''copy'' ''u'' ''t'') example_host) =
         map (nid \<circ> props) cs
     \<and> framed (onmessage (PreviewActionMessage ''copy'' ''u'' ''t'') example_host) =
         Some (selection (onmessage (PreviewActionMessage ''copy'' ''u'' ''t'') example_host))
     \<and> center (onmessage (PreviewActionMessage ''copy'' ''u'' ''t'') example_host) =
         recenter example_host
           (page (onmessage (PreviewActionMessage ''copy'' ''u'' ''t'') example_host))
           (selection (onmessage (PreviewActionMessage ''copy'' ''u'' ''t'') example_host)))"
proof -
  have ne: "selection example_host \<noteq> []"
    by (simp add: example_host_def)
  have d: "double (10 + 20) = 10 + 20" "double (11 + 20) = 11 + 20"
    "double (5 + 20) = 5 + 20" "double (6 + 20) = 6 + 20"
    using js_add_examples by (simp_all add: js_add_def)
  from copy_duplicates_selection [OF well_formed_example ne quiet_example, of "''u''" "''t''"]
    well_formed_example ne quiet_example d
  show ?thesis by blast
qed

text \<open>
  C1, as stated, fails where the sum rounds: the copy of a node at \<open>x = 12 + 2\<^sup>-\<^sup>4\<^sup>8\<close> lies at
  \<open>x = 32\<close>, which is less than 20 away, in exact arithmetic as well as in doubles.
\<close>

theorem copy_exact_offset_counterexample:
  "well_formed rounding_host \<and> quiet rounding_host 10 \<and>
   selection rounding_host = [1] \<and>
   find_node 1 (page rounding_host) = Some (Node (rectangle 1 (3377699720527873 / 281474976710656) 11) []) \<and>
   double (3377699720527873 / 281474976710656) = 3377699720527873 / 281474976710656 \<and>
   selection (onmessage
     (PreviewActionMessage ''copy'' ''https://figma.com/x'' ''Login Screen'') rounding_host) =
     [2] \<and>
   find_node 2 (page (onmessage
     (PreviewActionMessage ''copy'' ''https://figma.com/x'' ''Login Screen'') rounding_host)) =
     Some (Node (rectangle 2 32 31) []) \<and>
   xpos (rectangle 2 32 31) - xpos (rectangle 1 (3377699720527873 / 281474976710656) 11) \<noteq> 20 \<and>
   js_sub (xpos (rectangle 2 32 31)) (xpos (rectangle 1 (3377699720527873 / 281474976710656) 11)) \<noteq> 20"
proof -
  have "js_sub 32 (3377699720527873 / 281474976710656) \<noteq> 20"
    by code_simp
  then show ?thesis
    unfolding copy_rounding
    by (simp add: rounding_host_def example_host_def rectangle_def well_formed_def quiet_def
        rounding_examples)
qed

text \<open>
  C8, as the code has it. Every copy becomes a child of the current page, whatever the
  parent of its source is: \<^verbatim>\<open>figma.currentPage.appendChild(duplicate)\<close>.
\<close>

theorem copies_parented_under_page:
  fixes s url title
  defines "s' \<equiv> onmessage (PreviewActionMessage ''copy'' url title) s"
  assumes "well_formed s" and "selection s \<noteq> []"
    and "quiet s (6 * length (selection s) + 4)"
  shows "\<forall>i \<in> set (selection s'). parent_in PageNode i (page s') = Some PageNode"
proof
  fix i
  assume i: "i \<in> set (selection s')"
  from copy_result [OF assms(2-4), of url title] obtain cs m where
    r: "s' = s\<lparr>page := page s @ cs,
             selection := map (nid \<circ> props) cs,
             center := recenter s (page s @ cs) (map (nid \<circ> props) cs),
             framed := Some (map (nid \<circ> props) cs),
             next_id := m,
             notifications := notifications s @ [copy_ready title],
             ticks := ticks s + (6 * length (selection s) + 4)\<rparr>"
    and ids: "node_ids cs = [next_id s..<m]"
    unfolding s'_def by blast
  from i r obtain c where c: "c \<in> set cs" "i = nid (props c)" by auto
  with top_ids_subset [of cs] ids have "next_id s \<le> i" by auto
  with assms(2) have fresh: "i \<notin> set (node_ids (page s))"
    by (auto simp: well_formed_def)
  have "distinct (node_ids cs)" by (simp add: ids)
  then have "parent_in PageNode i cs = Some PageNode"
    using c by (simp add: parent_in_top)
  with fresh r show "parent_in PageNode i (page s') = Some PageNode"
    by (simp add: parent_in_append_fresh)
qed

theorem copies_parented_under_page_witness:
  "well_formed example_host \<and> selection example_host \<noteq> [] \<and>
   quiet example_host (6 * length (selection example_host) + 4) \<and>
   selection (onmessage
     (PreviewActionMessage ''copy'' ''https://figma.com/x'' ''Login Screen'') example_host) =
     [4, 5] \<and>
   parent_in PageNode 4 (page (onmessage
     (PreviewActionMessage ''copy'' ''https://figma.com/x'' ''Login Screen'') example_host)) =
     Some PageNode \<and>
   parent_in PageNode 5 (page (onmessage
     (PreviewActionMessage ''copy'' ''https://figma.com/x'' ''Login Screen'') example_host)) =
     Some PageNode"
proof -
  have ne: "selection example_host \<noteq> []"
    by (simp add: example_host_def)
  have sel: "selection (onmessage
     (PreviewActionMessage ''copy'' ''https://figma.com/x'' ''Login Screen'') example_host) =
     [4, 5]"
    by (simp only: copy_example) simp
  from copies_parented_under_page [OF well_formed_example ne quiet_example,
      of "''https://figma.com/x''" "''Login Screen''"]
    sel well_formed_example ne quiet_example
  show ?thesis by simp
qed

text \<open>
  C8, as stated, fails: in the example the second selected node, 3, lies in the frame 2,
  and its copy, 5, lies in the page.
\<close>

theorem copy_same_parent_counterexample:
  "selection example_host = [1, 3] \<and>
   parent_in PageNode 3 (page example_host) = Some (ParentNode 2) \<and>
   selection (onmessage
     (PreviewActionMessage ''copy'' ''https://figma.com/x'' ''Login Screen'') example_host) =
     [4, 5] \<and>
   copy_of (page example_host) 3 (Node (rectangle 5 25 26) []) \<and>
   find_node 5 (page (onmessage
     (PreviewActionMessage ''copy'' ''https://figma.com/x'' ''Login Screen'') example_host)) =
     Some (Node (rectangle 5 25 26) []) \<and>
   parent_in PageNode 5 (page (onmessage
     (PreviewActionMessage ''copy'' ''https://figma.com/x'' ''Login Screen'') example_host)) =
     Some PageNode"
  unfolding copy_example
  by (simp add: example_host_def rectangle_def new_frame_def copy_of_def offset_copy_def
      js_add_examples)



lemma copy_loop_keeps_unhandled: "keeps unhandled (copy_loop sel dups)"
  by (induction sel arbitrary: dups)
    (simp_all add: keeps_return keeps_bind keeps_unhandled)




lemma caught:
  assumes "body s = (Inl e, s1)" and "fault s1 (ticks s1) = None"
  shows "not_awaited (try_catch body (\<lambda>error. notify (pre @ errorMessage error))) s =
     s1\<lparr>ticks := ticks s1 + 1, notifications := notifications s1 @ [pre @ errorMessage e]\<rparr>"
  using assms by (simp add: not_awaited_def try_catch_def notify_def host_call_def)


text \<open>The example host when the \<^verbatim>\<open>clone\<close> of the second round throws.\<close>

lemma well_formed_failing: "well_formed (failing_host k e)"
  by (simp add: well_formed_def failing_host_def example_host_def rectangle_def new_frame_def)



subsection \<open>\<^verbatim>\<open>insert\<close>\<close>

text \<open>The whole effect of \<^verbatim>\<open>insert\<close> on a well-formed host whose calls do not throw.\<close>

lemma insert_result:
  assumes wf: "well_formed s" and q: "quiet s 20"
  shows "onmessage (PreviewActionMessage ''insert'' url title) s =
     s\<lparr>page := page s @
          [Node \<lparr>nid = next_id s, ntype = FRAME, name = title,
                 xpos = js_sub (fst (center s)) 200, ypos = js_sub (snd (center s)) 150,
                 width = 400, height = 300, fills = [gradient], characters = [],
                 fontSize = 12, fontName = default_font\<rparr>
             [Node \<lparr>nid = Suc (next_id s), ntype = TEXT, name = [], xpos = 20, ypos = 20,
                     width = 0, height = 0, fills = [SOLID 1 1 1], characters = title,
                     fontSize = 16, fontName = default_font\<rparr> []]],
        selection := [next_id s],
        center := recenter s (page s @
          [Node \<lparr>nid = next_id s, ntype = FRAME, name = title,
                 xpos = js_sub (fst (center s)) 200, ypos = js_sub (snd (center s)) 150,
                 width = 400, height = 300, fills = [gradient], characters = [],
                 fontSize = 12, fontName = default_font\<rparr>
             [Node \<lparr>nid = Suc (next_id s), ntype = TEXT, name = [], xpos = 20, ypos = 20,
                     width = 0, height = 0, fills = [SOLID 1 1 1], characters = title,
                     fontSize = 16, fontName = default_font\<rparr> []]]) [next_id s],
        framed := Some [next_id s],
        fonts := (if default_font \<in> set (fonts s) then fonts s else fonts s @ [default_font]),
        next_id := Suc (Suc (next_id s)),
        notifications := notifications s @ [check_mark @ '' Inserted design: '' @ title],
        ticks := ticks s + 20\<rparr>"
proof -
  have f: "\<And>j. ticks s \<le> j \<Longrightarrow> j < ticks s + 20 \<Longrightarrow> fault s j = None"
    using quiet_range [OF q] by simp
  have fresh: "next_id s \<notin> set (node_ids (page s))" "Suc (next_id s) \<notin> set (node_ids (page s))"
    using wf by (auto simp: well_formed_def)
  show ?thesis
    by (simp add: not_awaited_def handleInsertDesign_def try_catch_def
        insert_body_def bind_def createFrame_def createText_def create_node_def
        host_call_def Let_def f set_prop_def resize_def get_center_def loadFontAsync_def
        set_characters_def appendChild_def page_appendChild_def set_selection_def
        scrollAndZoomIntoView_def notify_def new_frame_def new_text_def
        find_node_append_fresh fresh update_node_append update_node_fresh
        remove_node_append remove_node_fresh add_child_fresh default_font_def)
qed

text \<open>
  C2. On a well-formed host whose calls do not throw, \<^verbatim>\<open>insert\<close> appends one frame to the
  page whose name is the title as given and whose size is 400 by 300, whatever the title
  and the url are.
\<close>

theorem insert_frame_name_and_size:
  fixes s url title
  defines "s' \<equiv> onmessage (PreviewActionMessage ''insert'' url title) s"
  assumes "well_formed s" and "quiet s 20"
  shows "\<exists>p ks. page s' = page s @ [Node p ks] \<and> nid p = next_id s \<and> ntype p = FRAME
     \<and> name p = title \<and> width p = 400 \<and> height p = 300 \<and> selection s' = [nid p]"
  unfolding s'_def insert_result [OF assms(2,3)] by simp

theorem insert_frame_name_and_size_witness:
  "well_formed example_host \<and> quiet example_host 20 \<and>
   (\<exists>p ks. page (onmessage (PreviewActionMessage ''insert'' ''https://figma.com/x'' [])
               example_host) = page example_host @ [Node p ks]
      \<and> nid p = next_id example_host \<and> ntype p = FRAME
      \<and> name p = [] \<and> width p = 400 \<and> height p = 300
      \<and> selection (onmessage (PreviewActionMessage ''insert'' ''https://figma.com/x'' [])
               example_host) = [nid p]) \<and>
   (\<exists>p ks. page (onmessage (PreviewActionMessage ''insert'' [] ''<Log-in> & 100% #1?'')
               example_host) = page example_host @ [Node p ks]
      \<and> nid p = next_id example_host \<and> ntype p = FRAME
      \<and> name p = ''<Log-in> & 100% #1?'' \<and> width p = 400 \<and> height p = 300
      \<and> selection (onmessage (PreviewActionMessage ''insert'' [] ''<Log-in> & 100% #1?'')
               example_host) = [nid p])"
  using insert_frame_name_and_size
     [OF well_formed_example quiet_example, of "''https://figma.com/x''" "[]"]
    insert_frame_name_and_size
     [OF well_formed_example quiet_example, of "[]" "''<Log-in> & 100% #1?''"]
    well_formed_example quiet_example [of 20]
  by blast

text \<open>
  C9. The message \<^verbatim>\<open>{type: "preview-action", action: "insert", url: "https://figma.com/x",
  title: "Login Screen"}\<close>, handled while the viewport center is (100, 100): the page gains
  one frame named "Login Screen" at (-100, -50) of size 400 by 300 that holds one text
  node reading "Login Screen", and one notification is shown, which ends in
  "Login Screen".
\<close>

theorem insert_login_screen:
  fixes s
  defines "s' \<equiv> onmessage
     (PreviewActionMessage ''insert'' ''https://figma.com/x'' ''Login Screen'') s"
  assumes "well_formed s" and "quiet s 20" and "center s = (100, 100)"
  shows "\<exists>p t. page s' = page s @ [Node p [Node t []]]
     \<and> ntype p = FRAME \<and> name p = ''Login Screen''
     \<and> xpos p = - 100 \<and> ypos p = - 50 \<and> width p = 400 \<and> height p = 300
     \<and> ntype t = TEXT \<and> characters t = ''Login Screen''
     \<and> notifications s' =
         notifications s @ [check_mark @ '' Inserted design: Login Screen'']"
  unfolding s'_def insert_result [OF assms(2,3)] by (simp add: assms(4) js_sub_examples)

theorem insert_login_screen_witness:
  "well_formed example_host \<and> quiet example_host 20 \<and> center example_host = (100, 100) \<and>
   (\<exists>p t. page (onmessage
       (PreviewActionMessage ''insert'' ''https://figma.com/x'' ''Login Screen'')
       example_host) = page example_host @ [Node p [Node t []]]
     \<and> ntype p = FRAME \<and> name p = ''Login Screen''
     \<and> xpos p = - 100 \<and> ypos p = - 50 \<and> width p = 400 \<and> height p = 300
     \<and> ntype t = TEXT \<and> characters t = ''Login Screen''
     \<and> notifications (onmessage
       (PreviewActionMessage ''insert'' ''https://figma.com/x'' ''Login Screen'')
       example_host) = [check_mark @ '' Inserted design: Login Screen''])"
proof -
  have c: "center example_host = (100, 100)" and n: "notifications example_host = []"
    by (simp_all add: example_host_def)
  from insert_login_screen [OF well_formed_example quiet_example c]
    well_formed_example quiet_example [of 20] c
  show ?thesis unfolding n append_Nil by blast
qed

text \<open>
  C3, as the code has it. On a well-formed host whose calls do not throw, the frame is
  placed at the doubles nearest to \<open>center.x - 200\<close> and \<open>center.y - 150\<close>, the center being the
  one the host has when the handler is called; nothing else rounds them. Hence
  \<open>frame.x + 200\<close> and \<open>frame.y + 150\<close> give the center back whenever the two differences are
  doubles themselves, as they are for every center with integer coordinates below
  \<open>2\<^sup>5\<^sup>2\<close> in magnitude, negative ones included.
\<close>

theorem insert_frame_position:
  fixes s url title
  defines "s' \<equiv> onmessage (PreviewActionMessage ''insert'' url title) s"
  assumes "well_formed s" and "quiet s 20"
  shows "\<exists>p ks. page s' = page s @ [Node p ks] \<and> nid p = next_id s
     \<and> xpos p = double (fst (center s) - 200) \<and> ypos p = double (snd (center s) - 150)
     \<and> (double (fst (center s) - 200) = fst (center s) - 200
          \<longrightarrow> xpos p + 200 = fst (center s))
     \<and> (double (snd (center s) - 150) = snd (center s) - 150
          \<longrightarrow> ypos p + 150 = snd (center s))
     \<and> (\<forall>a b. center s = (of_int a, of_int b) \<and> \<bar>a\<bar> < 2 ^ 52 \<and> \<bar>b\<bar> < 2 ^ 52
          \<longrightarrow> xpos p + 200 = of_int a \<and> ypos p + 150 = of_int b)"
proof -
  have ints: "double (of_int a - 200) = of_int a - 200"
    "double (of_int b - 150) = of_int b - 150"
    if "\<bar>a\<bar> < 2 ^ 52" and "\<bar>b\<bar> < 2 ^ 52" for a b :: int
  proof -
    from that have "\<bar>a - 200\<bar> < 2 ^ 53" "\<bar>b - 150\<bar> < 2 ^ 53" by simp_all
    then have "double (of_int (a - 200)) = of_int (a - 200)"
      "double (of_int (b - 150)) = of_int (b - 150)"
      by (simp_all only: double_of_int)
    then show "double (of_int a - 200) = of_int a - 200"
      "double (of_int b - 150) = of_int b - 150"
      by simp_all
  qed
  show ?thesis
    unfolding s'_def insert_result [OF assms(2,3)]
    by (auto simp: js_sub_def ints)
qed

theorem insert_frame_position_witness:
  "well_formed example_host \<and> quiet example_host 20 \<and>
   center example_host = (of_int 100, of_int 100) \<and> \<bar>100 :: int\<bar> < 2 ^ 52 \<and>
   (\<exists>p ks. page (onmessage (PreviewActionMessage ''insert'' ''u'' ''t'') example_host) =
        page example_host @ [Node p ks]
      \<and> xpos p + 200 = 100 \<and> ypos p + 150 = 100) \<and>
   well_formed negative_host \<and> quiet negative_host 20 \<and>
   center negative_host = (- 501 / 2, 4001 / 4) \<and>
   double (- 501 / 2 - 200) = - 501 / 2 - 200 \<and>
   double (4001 / 4 - 150) = 4001 / 4 - 150 \<and>
   (\<exists>p ks. page (onmessage (PreviewActionMessage ''insert'' ''u'' ''t'') negative_host) =
        page negative_host @ [Node p ks]
      \<and> xpos p + 200 = - 501 / 2 \<and> ypos p + 150 = 4001 / 4)"
proof -
  have c: "center example_host = (of_int 100, of_int 100)"
    and cn: "center negative_host = (- 501 / 2, 4001 / 4)"
    by (simp_all add: example_host_def negative_host_def)
  have wn: "well_formed negative_host" and qn: "quiet negative_host 20"
    by (simp_all add: negative_host_def well_formed_def quiet_def example_host_def
        rectangle_def new_frame_def)
  have small: "\<bar>100 :: int\<bar> < 2 ^ 52" by simp
  from insert_frame_position [OF well_formed_example quiet_example, of "''u''" "''t''"]
    c small
  have "\<exists>p ks. page (onmessage (PreviewActionMessage ''insert'' ''u'' ''t'') example_host) =
        page example_host @ [Node p ks]
      \<and> xpos p + 200 = 100 \<and> ypos p + 150 = 100"
    by (auto simp del: onmessage.simps)
  moreover
  from insert_frame_position [OF wn qn, of "''u''" "''t''"] cn double_negative
  have "\<exists>p ks. page (onmessage (PreviewActionMessage ''insert'' ''u'' ''t'') negative_host) =
        page negative_host @ [Node p ks]
      \<and> xpos p + 200 = - 501 / 2 \<and> ypos p + 150 = 4001 / 4"
    by (auto simp del: onmessage.simps)
  ultimately show ?thesis
    using well_formed_example quiet_example [of 20] c wn qn cn double_negative small
    by (intro conjI)
qed

text \<open>
  C3, as stated, fails for a fractional center: with \<open>center.x = 0.1\<close> the frame is placed at
  \<open>x = -199.90000000000000568\<dots>\<close>, and adding 200 gives \<open>0.09999999999999432\<dots>\<close>, in exact
  arithmetic as well as in doubles.
\<close>

theorem insert_fractional_center_counterexample:
  "center fractional_host = (3602879701896397 / 36028797018963968, 100) \<and>
   xpos (props (last (page
     (onmessage (PreviewActionMessage ''insert'' ''https://figma.com/x'' ''Login Screen'')
        fractional_host)))) = - (7033355980557517 / 35184372088832) \<and>
   xpos (props (last (page
     (onmessage (PreviewActionMessage ''insert'' ''https://figma.com/x'' ''Login Screen'')
        fractional_host)))) + 200 \<noteq> fst (center fractional_host) \<and>
   js_add (xpos (props (last (page
     (onmessage (PreviewActionMessage ''insert'' ''https://figma.com/x'' ''Login Screen'')
        fractional_host))))) 200 \<noteq> fst (center fractional_host)"
proof -
  have w: "well_formed fractional_host" and q: "quiet fractional_host 20"
    by (simp_all add: fractional_host_def well_formed_def quiet_def example_host_def
        rectangle_def new_frame_def)
  have c: "center fractional_host = (3602879701896397 / 36028797018963968, 100)"
    by (simp add: fractional_host_def double_tenth)
  show ?thesis
    unfolding insert_result [OF w q]
    by (simp add: c double_tenth)
qed

subsection \<open>Failures\<close>

lemma copy_body_keeps_unhandled: "keeps unhandled (copy_body url title)"
  unfolding copy_body_def
  by (intro keeps_bind keeps_if keeps_unhandled copy_loop_keeps_unhandled)

lemma insert_body_keeps_unhandled: "keeps unhandled (insert_body url title)"
  unfolding insert_body_def Let_def
  by (intro keeps_bind keeps_unhandled)

lemma goto_body_keeps_unhandled: "keeps unhandled (goto_body url title)"
  unfolding goto_body_def
  by (intro keeps_bind keeps_unhandled)

lemma goto_result:
  assumes q: "quiet s 2"
  shows "onmessage (PreviewActionMessage ''goto'' url title) s =
     s\<lparr>ticks := ticks s + 2, opened := opened s @ [url],
       notifications := notifications s @ [''Opening: '' @ title]\<rparr>"
proof -
  have f0: "fault s (ticks s) = None" and f1: "fault s (Suc (ticks s)) = None"
    using quiet_None [OF q, of 0] quiet_None [OF q, of 1] by simp_all
  show ?thesis
    by (simp add: not_awaited_def handleGoToFile_def goto_body_def try_catch_def bind_def
        openExternal_def notify_def host_call_def Let_def f0 f1)
qed

text \<open>
  C4, as the code has it. When the body of a handler throws \<open>e\<close> and the host shows the error notification,
  the dispatcher returns with exactly one notification added to those the body had shown:
  the handler's prefix followed by the message of \<open>e\<close>, or by "Unknown error" when \<open>e\<close> is
  not an \<^verbatim>\<open>Error\<close>. No rejection is left unhandled. The dispatcher keeps no state of its
  own, and the host it leaves is well-formed if the host it found was, whatever message
  was handled and whatever failed: the next message finds what its handler needs. Shown
  for a \<^verbatim>\<open>goto\<close> that follows on any host \<open>sn\<close>.
\<close>

theorem failures_caught_and_notified:
  "(copy_body url title s = (Inl e, sf) \<and> fault sf (ticks sf) = None \<longrightarrow>
      onmessage (PreviewActionMessage ''copy'' url title) s =
        sf\<lparr>ticks := ticks sf + 1,
           notifications := notifications sf @ [''Error copying layer: '' @ errorMessage e]\<rparr>
      \<and> unhandled sf = unhandled s)
   \<and> (insert_body url title s = (Inl e, sf) \<and> fault sf (ticks sf) = None \<longrightarrow>
      onmessage (PreviewActionMessage ''insert'' url title) s =
        sf\<lparr>ticks := ticks sf + 1,
           notifications := notifications sf @ [''Error inserting design: '' @ errorMessage e]\<rparr>
      \<and> unhandled sf = unhandled s)
   \<and> (goto_body url title s = (Inl e, sf) \<and> fault sf (ticks sf) = None \<longrightarrow>
      onmessage (PreviewActionMessage ''goto'' url title) s =
        sf\<lparr>ticks := ticks sf + 1,
           notifications := notifications sf @ [''Error opening file: '' @ errorMessage e]\<rparr>
      \<and> unhandled sf = unhandled s)
   \<and> errorMessage (Error m) = m \<and> errorMessage NonError = ''Unknown error''
   \<and> (well_formed s \<longrightarrow> well_formed (onmessage msg s))
   \<and> (quiet sn 2 \<longrightarrow>
        onmessage (PreviewActionMessage ''goto'' next_url next_title) sn =
          sn\<lparr>ticks := ticks sn + 2, opened := opened sn @ [next_url],
             notifications := notifications sn @ [''Opening: '' @ next_title]\<rparr>)"
proof (intro conjI impI; (elim conjE)?)
  show "errorMessage (Error m) = m" and "errorMessage NonError = ''Unknown error''"
    by (simp_all add: errorMessage_def)
  show "well_formed (onmessage msg s)" if "well_formed s"
    using that by (rule wf_onmessage)
  show "onmessage (PreviewActionMessage ''goto'' next_url next_title) sn =
          sn\<lparr>ticks := ticks sn + 2, opened := opened sn @ [next_url],
             notifications := notifications sn @ [''Opening: '' @ next_title]\<rparr>"
    if "quiet sn 2"
    using that by (rule goto_result)
next
  assume "copy_body url title s = (Inl e, sf)" and "fault sf (ticks sf) = None"
  then show "onmessage (PreviewActionMessage ''copy'' url title) s =
        sf\<lparr>ticks := ticks sf + 1,
           notifications := notifications sf @ [''Error copying layer: '' @ errorMessage e]\<rparr>"
    and "unhandled sf = unhandled s"
    using caught [of "copy_body url title" s e sf "''Error copying layer: ''"]
      keepsD [OF copy_body_keeps_unhandled, of url title s "Inl e" sf]
    by (simp_all add: handleCopyLayer_def)
next
  assume "insert_body url title s = (Inl e, sf)" and "fault sf (ticks sf) = None"
  then show "onmessage (PreviewActionMessage ''insert'' url title) s =
        sf\<lparr>ticks := ticks sf + 1,
           notifications := notifications sf @ [''Error inserting design: '' @ errorMessage e]\<rparr>"
    and "unhandled sf = unhandled s"
    using caught [of "insert_body url title" s e sf "''Error inserting design: ''"]
      keepsD [OF insert_body_keeps_unhandled, of url title s "Inl e" sf]
    by (simp_all add: handleInsertDesign_def)
next
  assume "goto_body url title s = (Inl e, sf)" and "fault sf (ticks sf) = None"
  then show "onmessage (PreviewActionMessage ''goto'' url title) s =
        sf\<lparr>ticks := ticks sf + 1,
           notifications := notifications sf @ [''Error opening file: '' @ errorMessage e]\<rparr>"
    and "unhandled sf = unhandled s"
    using caught [of "goto_body url title" s e sf "''Error opening file: ''"]
      keepsD [OF goto_body_keeps_unhandled, of url title s "Inl e" sf]
    by (simp_all add: handleGoToFile_def)
qed

text \<open>
  Three failures on the example host: a \<^verbatim>\<open>clone\<close> that throws an \<^verbatim>\<open>Error\<close>, a font load
  rejected with a value that is not an \<^verbatim>\<open>Error\<close>, and an \<^verbatim>\<open>openExternal\<close> that throws.
\<close>

lemma copy_body_failing:
  "copy_body ''u'' ''t'' (failing_host 8 (Error ''locked'')) =
   (Inl (Error ''locked''),
    (failing_host 8 (Error ''locked''))\<lparr>page := page example_host @ [Node (rectangle 4 30 31) []],
       next_id := 5, notifications := [copy_ready ''t''], ticks := 9\<rparr>)"
  by (simp add: failing_host_def example_host_def rectangle_def new_frame_def
      js_add_examples js_sub_examples
      copy_body_def bind_def return_def host_call_def Let_def get_selection_def notify_def
      clone_def get_prop_def set_prop_def page_appendChild_def)

lemma insert_body_failing:
  "insert_body ''u'' ''t'' (failing_host 9 NonError) =
   (Inl NonError,
    (failing_host 9 NonError)\<lparr>page := page example_host @
        [Node \<lparr>nid = 4, ntype = FRAME, name = ''t'', xpos = - 100, ypos = - 50,
                width = 400, height = 300, fills = [gradient], characters = [],
                fontSize = 12, fontName = default_font\<rparr> [],
         Node (new_text 5) []],
       next_id := 6, ticks := 10\<rparr>)"
  by (simp add: failing_host_def example_host_def rectangle_def new_frame_def new_text_def
      js_sub_examples
      insert_body_def bind_def host_call_def Let_def createFrame_def createText_def
      create_node_def set_prop_def resize_def get_center_def loadFontAsync_def)

lemma goto_body_failing:
  "goto_body ''u'' ''t'' (failing_host 0 (Error ''blocked'')) =
   (Inl (Error ''blocked''), (failing_host 0 (Error ''blocked''))\<lparr>ticks := 1\<rparr>)"
  by (simp add: failing_host_def example_host_def goto_body_def bind_def host_call_def
      openExternal_def)

theorem failures_caught_and_notified_witness:
  "copy_body ''u'' ''t'' (failing_host 8 (Error ''locked'')) =
     (Inl (Error ''locked''),
      (failing_host 8 (Error ''locked''))\<lparr>page := page example_host @ [Node (rectangle 4 30 31) []],
         next_id := 5, notifications := [copy_ready ''t''], ticks := 9\<rparr>) \<and>
   fault (failing_host 8 (Error ''locked'')) 9 = None \<and>
   onmessage (PreviewActionMessage ''copy'' ''u'' ''t'') (failing_host 8 (Error ''locked'')) =
     (failing_host 8 (Error ''locked''))\<lparr>page := page example_host @ [Node (rectangle 4 30 31) []],
        next_id := 5,
        notifications := [copy_ready ''t'', ''Error copying layer: locked''], ticks := 10\<rparr> \<and>
   insert_body ''u'' ''t'' (failing_host 9 NonError) =
     (Inl NonError,
      (failing_host 9 NonError)\<lparr>page := page example_host @
          [Node \<lparr>nid = 4, ntype = FRAME, name = ''t'', xpos = - 100, ypos = - 50,
                  width = 400, height = 300, fills = [gradient], characters = [],
                  fontSize = 12, fontName = default_font\<rparr> [],
           Node (new_text 5) []],
         next_id := 6, ticks := 10\<rparr>) \<and>
   fault (failing_host 9 NonError) 10 = None \<and>
   onmessage (PreviewActionMessage ''insert'' ''u'' ''t'') (failing_host 9 NonError) =
     (failing_host 9 NonError)\<lparr>page := page example_host @
          [Node \<lparr>nid = 4, ntype = FRAME, name = ''t'', xpos = - 100, ypos = - 50,
                  width = 400, height = 300, fills = [gradient], characters = [],
                  fontSize = 12, fontName = default_font\<rparr> [],
           Node (new_text 5) []],
         next_id := 6,
         notifications := [''Error inserting design: Unknown error''], ticks := 11\<rparr> \<and>
   goto_body ''u'' ''t'' (failing_host 0 (Error ''blocked'')) =
     (Inl (Error ''blocked''), (failing_host 0 (Error ''blocked''))\<lparr>ticks := 1\<rparr>) \<and>
   fault (failing_host 0 (Error ''blocked'')) 1 = None \<and>
   onmessage (PreviewActionMessage ''goto'' ''u'' ''t'') (failing_host 0 (Error ''blocked'')) =
     (failing_host 0 (Error ''blocked''))\<lparr>
        notifications := [''Error opening file: blocked''], ticks := 2\<rparr> \<and>
   well_formed (failing_host 9 NonError) \<and>
   well_formed (onmessage (PreviewActionMessage ''insert'' ''u'' ''t'') (failing_host 9 NonError)) \<and>
   quiet (onmessage (PreviewActionMessage ''insert'' ''u'' ''t'') (failing_host 9 NonError)) 2 \<and>
   opened (onmessage (PreviewActionMessage ''goto'' ''https://figma.com/x'' ''Login Screen'')
     (onmessage (PreviewActionMessage ''insert'' ''u'' ''t'') (failing_host 9 NonError))) =
     [''https://figma.com/x''] \<and>
   notifications (onmessage (PreviewActionMessage ''goto'' ''https://figma.com/x'' ''Login Screen'')
     (onmessage (PreviewActionMessage ''insert'' ''u'' ''t'') (failing_host 9 NonError))) =
     [''Error inserting design: Unknown error'', ''Opening: Login Screen'']"
proof -
  let ?h1 = "failing_host 8 (Error ''locked'')"
  let ?h2 = "failing_host 9 NonError"
  let ?h3 = "failing_host 0 (Error ''blocked'')"
  have f: "fault ?h1 9 = None" "fault ?h2 10 = None" "fault ?h3 1 = None"
    and n: "notifications ?h3 = []" "notifications ?h2 = []" "opened ?h2 = []"
    by (simp_all add: failing_host_def example_host_def)
  let ?s1 = "?h1\<lparr>page := page example_host @ [Node (rectangle 4 30 31) []],
         next_id := 5, notifications := [copy_ready ''t''], ticks := 9\<rparr>"
  let ?s2 = "?h2\<lparr>page := page example_host @
          [Node \<lparr>nid = 4, ntype = FRAME, name = ''t'', xpos = - 100, ypos = - 50,
                  width = 400, height = 300, fills = [gradient], characters = [],
                  fontSize = 12, fontName = default_font\<rparr> [],
           Node (new_text 5) []],
         next_id := 6, ticks := 10\<rparr>"
  let ?s3 = "?h3\<lparr>ticks := 1\<rparr>"
  note a = failures_caught_and_notified
    [where s = ?h1 and url = "''u''" and title = "''t''" and e = "Error ''locked''"
       and sf = ?s1, THEN conjunct1]
  note b = failures_caught_and_notified
    [where s = ?h2 and url = "''u''" and title = "''t''" and e = NonError
       and sf = ?s2, THEN conjunct2, THEN conjunct1]
  note c = failures_caught_and_notified
    [where s = ?h3 and url = "''u''" and title = "''t''" and e = "Error ''blocked''"
       and sf = ?s3, THEN conjunct2, THEN conjunct2, THEN conjunct1]
  note d = failures_caught_and_notified
    [where sn = "onmessage (PreviewActionMessage ''insert'' ''u'' ''t'') ?h2"
       and next_url = "''https://figma.com/x''" and next_title = "''Login Screen''",
       THEN conjunct2, THEN conjunct2, THEN conjunct2, THEN conjunct2, THEN conjunct2,
       THEN conjunct2]
  note w = failures_caught_and_notified
    [where s = ?h2 and msg = "PreviewActionMessage ''insert'' ''u'' ''t''",
       THEN conjunct2, THEN conjunct2, THEN conjunct2, THEN conjunct2, THEN conjunct2,
       THEN conjunct1]
  have W: "well_formed (onmessage (PreviewActionMessage ''insert'' ''u'' ''t'') ?h2)"
    using w well_formed_failing [of 9 NonError] by (simp del: onmessage.simps)
  have A: "onmessage (PreviewActionMessage ''copy'' ''u'' ''t'') ?h1 =
     ?h1\<lparr>page := page example_host @ [Node (rectangle 4 30 31) []],
        next_id := 5,
        notifications := [copy_ready ''t'', ''Error copying layer: locked''], ticks := 10\<rparr>"
    using a copy_body_failing f(1) by (simp add: errorMessage_def)
  have B: "onmessage (PreviewActionMessage ''insert'' ''u'' ''t'') ?h2 =
     ?h2\<lparr>page := page example_host @
          [Node \<lparr>nid = 4, ntype = FRAME, name = ''t'', xpos = - 100, ypos = - 50,
                  width = 400, height = 300, fills = [gradient], characters = [],
                  fontSize = 12, fontName = default_font\<rparr> [],
           Node (new_text 5) []],
         next_id := 6,
         notifications := [''Error inserting design: Unknown error''], ticks := 11\<rparr>"
    using b insert_body_failing f(2) n by (simp add: errorMessage_def)
  have C: "onmessage (PreviewActionMessage ''goto'' ''u'' ''t'') ?h3 =
     ?h3\<lparr>notifications := [''Error opening file: blocked''], ticks := 2\<rparr>"
    using c goto_body_failing f(3) n by (simp add: errorMessage_def)
  have q: "quiet (onmessage (PreviewActionMessage ''insert'' ''u'' ''t'') ?h2) 2"
    unfolding B by (simp add: quiet_def failing_host_def example_host_def)
  from d q have D: "onmessage (PreviewActionMessage ''goto'' ''https://figma.com/x'' ''Login Screen'')
     (onmessage (PreviewActionMessage ''insert'' ''u'' ''t'') ?h2) =
     (onmessage (PreviewActionMessage ''insert'' ''u'' ''t'') ?h2)\<lparr>
        ticks := ticks (onmessage (PreviewActionMessage ''insert'' ''u'' ''t'') ?h2) + 2,
        opened := opened (onmessage (PreviewActionMessage ''insert'' ''u'' ''t'') ?h2)
           @ [''https://figma.com/x''],
        notifications := notifications (onmessage (PreviewActionMessage ''insert'' ''u'' ''t'') ?h2)
           @ [''Opening: Login Screen'']\<rparr>"
    by (simp del: onmessage.simps)
  have E: "opened (onmessage (PreviewActionMessage ''goto'' ''https://figma.com/x'' ''Login Screen'')
     (onmessage (PreviewActionMessage ''insert'' ''u'' ''t'') ?h2)) = [''https://figma.com/x'']"
    "notifications (onmessage (PreviewActionMessage ''goto'' ''https://figma.com/x'' ''Login Screen'')
     (onmessage (PreviewActionMessage ''insert'' ''u'' ''t'') ?h2)) =
     [''Error inserting design: Unknown error'', ''Opening: Login Screen'']"
    unfolding D unfolding B using n by simp_all
  from A B C q E f copy_body_failing insert_body_failing goto_body_failing
    W well_formed_failing [of 9 NonError]
  show ?thesis by (intro conjI)
qed

text \<open>
  C4, as stated, fails when the host refuses the notification of the catch block too:
  \<^verbatim>\<open>openExternal\<close> throws, the \<^verbatim>\<open>figma.notify\<close> of the catch block throws, no notification is
  shown, and the promise of the handler is rejected with nobody to handle it.
\<close>

theorem catch_notify_fails_counterexample:
  "goto_body ''https://figma.com/x'' ''Login Screen'' twice_failing_host =
     (Inl (Error ''blocked''), twice_failing_host\<lparr>ticks := 1\<rparr>) \<and>
   onmessage (PreviewActionMessage ''goto'' ''https://figma.com/x'' ''Login Screen'')
     twice_failing_host =
     twice_failing_host\<lparr>ticks := 2, unhandled := [Error ''no notifications'']\<rparr> \<and>
   notifications (onmessage
     (PreviewActionMessage ''goto'' ''https://figma.com/x'' ''Login Screen'')
     twice_failing_host) = [] \<and>
   unhandled (onmessage
     (PreviewActionMessage ''goto'' ''https://figma.com/x'' ''Login Screen'')
     twice_failing_host) = [Error ''no notifications'']"
  by (simp add: twice_failing_host_def example_host_def not_awaited_def handleGoToFile_def
      goto_body_def try_catch_def bind_def openExternal_def notify_def host_call_def)

end
